theory Spec2Isabelle
  imports Main "HOL-Library.Log_Nat" "HOL-Library.List_Lexorder"
begin

section \<open>Python values used by the retrieval core\<close>

subsection \<open>Strings\<close>

text \<open>
  A Python \<^verbatim>\<open>str\<close> is a sequence of Unicode code points; it is modelled as the list of
  its code points, as integers, so that \<^verbatim>\<open>len\<close>, slicing and the substring test count
  what Python counts. Dictionary keys and column names that the source writes as ASCII
  literals are HOL strings.
\<close>

type_synonym pystr = "int list"

definition asc :: "string \<Rightarrow> pystr" where
  "asc s = map of_char s"

text \<open>
  \<^verbatim>\<open>str.lower()\<close>: exact on code points below 256 (ASCII and Latin-1 capitals, the
  multiplication sign 215 excepted); code points from 256 on are left unchanged, which is
  what Python does for the symbols of the response templates but not for capitals of other
  scripts.
\<close>

definition lower_cp :: "int \<Rightarrow> int" where
  "lower_cp c = (if (65 \<le> c \<and> c \<le> 90) \<or> (192 \<le> c \<and> c \<le> 222 \<and> c \<noteq> 215) then c + 32 else c)"

definition lower :: "pystr \<Rightarrow> pystr" where
  "lower s = map lower_cp s"

text \<open>\<^verbatim>\<open>s.startswith(k)\<close> and the substring test \<^verbatim>\<open>k in s\<close>.\<close>

fun startswith :: "'a list \<Rightarrow> 'a list \<Rightarrow> bool" where
  "startswith s [] = True"
| "startswith [] (k # ks) = False"
| "startswith (c # s) (k # ks) = (c = k \<and> startswith s ks)"

fun contains :: "'a list \<Rightarrow> 'a list \<Rightarrow> bool" where
  "contains [] k = (k = [])"
| "contains (c # s) k = (startswith (c # s) k \<or> contains s k)"

text \<open>
  The regular-expression classes \<^verbatim>\<open>\w\<close> and \<^verbatim>\<open>\d\<close> of a \<^verbatim>\<open>str\<close> pattern, on code
  points below 256: \<^verbatim>\<open>\w\<close> is the underscore and every character for which
  \<^verbatim>\<open>str.isalnum()\<close> holds, \<^verbatim>\<open>\d\<close> the decimal digits. Code points from 256 on are
  treated as neither.
\<close>

definition is_digit_cp :: "int \<Rightarrow> bool" where
  "is_digit_cp c = (48 \<le> c \<and> c \<le> 57)"

definition is_word_cp :: "int \<Rightarrow> bool" where
  "is_word_cp c =
     (is_digit_cp c \<or> (65 \<le> c \<and> c \<le> 90) \<or> c = 95 \<or> (97 \<le> c \<and> c \<le> 122)
      \<or> c \<in> {170, 178, 179, 181, 185, 186, 188, 189, 190}
      \<or> (192 \<le> c \<and> c \<le> 214) \<or> (216 \<le> c \<and> c \<le> 246) \<or> (248 \<le> c \<and> c \<le> 255))"

text \<open>\<^verbatim>\<open>re.findall(r'\w+', s)\<close>: the maximal runs of word characters, left to right.\<close>

fun findall_words_from :: "pystr \<Rightarrow> pystr \<Rightarrow> pystr list" where
  "findall_words_from cur [] = (if cur = [] then [] else [cur])"
| "findall_words_from cur (c # s) =
     (if is_word_cp c then findall_words_from (cur @ [c]) s
      else (if cur = [] then [] else [cur]) @ findall_words_from [] s)"

definition findall_words :: "pystr \<Rightarrow> pystr list" where
  "findall_words s = findall_words_from [] s"

text \<open>\<^verbatim>\<open>str(n)\<close> for an integer.\<close>

fun digits_of :: "nat \<Rightarrow> pystr" where
  "digits_of n = (if n < 10 then [48 + int n] else digits_of (n div 10) @ [48 + int (n mod 10)])"

definition str_int :: "int \<Rightarrow> pystr" where
  "str_int i = (if i < 0 then 45 # digits_of (nat (- i)) else digits_of (nat i))"

subsection \<open>Floats\<close>

text \<open>
  A Python \<^verbatim>\<open>float\<close> is an IEEE-754 binary64 number. A finite double is modelled as the
  rational number it denotes, and every arithmetic operation as the exact operation followed
  by rounding to the nearest double, ties to even: \<open>rnd\<close> keeps 53 significant bits. The
  exponent is unbounded in the model, so it agrees with Python wherever no overflow or
  underflow occurs; the counts, ratios and percentages of this program cause neither.
\<close>

definition rhe :: "rat \<Rightarrow> int" where
  "rhe t = (let f = \<lfloor>t\<rfloor>; r = t - of_int f
            in if r < 1/2 then f else if 1/2 < r then f + 1
               else if even f then f else f + 1)"

text \<open>For \<open>x > 0\<close>, \<open>ilog2 x\<close> is the exponent \<open>e\<close> with \<open>2 powi e \<le> x < 2 powi (e + 1)\<close>.\<close>

definition ilog2 :: "rat \<Rightarrow> int" where
  "ilog2 x = (if 1 \<le> x then int (floorlog 2 (nat \<lfloor>x\<rfloor>)) - 1
              else - int (floorlog 2 (nat (\<lceil>1 / x\<rceil> - 1))))"

definition rnd :: "rat \<Rightarrow> rat" where
  "rnd x = (if x = 0 then 0
            else let s = 2 powi (52 - ilog2 \<bar>x\<bar>)
                 in sgn x * of_int (rhe (\<bar>x\<bar> * s)) / s)"

text \<open>A float literal, float addition and multiplication, the conversion of an \<^verbatim>\<open>int\<close>, and
  the true division \<^verbatim>\<open>a / b\<close> of two ints (correctly rounded in CPython).\<close>

definition flit :: "rat \<Rightarrow> rat" where
  "flit r = rnd r"

definition fadd :: "rat \<Rightarrow> rat \<Rightarrow> rat" where
  "fadd x y = rnd (x + y)"

definition fmul :: "rat \<Rightarrow> rat \<Rightarrow> rat" where
  "fmul x y = rnd (x * y)"

definition fdiv :: "rat \<Rightarrow> rat \<Rightarrow> rat" where
  "fdiv x y = rnd (x / y)"

definition float_of_int :: "int \<Rightarrow> rat" where
  "float_of_int n = rnd (of_int n)"

definition int_truediv :: "int \<Rightarrow> int \<Rightarrow> rat" where
  "int_truediv a b = rnd (of_int a / of_int b)"

text \<open>
  \<^verbatim>\<open>format(x, '.df')\<close>: the decimal expansion with \<open>d\<close> digits after the point, correctly
  rounded (ties to even) from the exact value of the double.
\<close>

definition pad_left :: "nat \<Rightarrow> pystr \<Rightarrow> pystr" where
  "pad_left d s = replicate (d - length s) 48 @ s"

definition format_fixed :: "nat \<Rightarrow> rat \<Rightarrow> pystr" where
  "format_fixed d x =
     (let n = nat (rhe (\<bar>x\<bar> * 10 ^ d));
          body = digits_of (n div 10 ^ d) @ (if d = 0 then [] else 46 # pad_left d (digits_of (n mod 10 ^ d)))
      in if x < 0 then 45 # body else body)"

subsection \<open>Table cells, rows and dictionaries\<close>

text \<open>
  A cell of a \<^verbatim>\<open>pandas\<close> row as \<^verbatim>\<open>read_csv\<close> produces it: a string, an integer, a float,
  or \<^verbatim>\<open>NaN\<close>, the value of a cell the file leaves empty. Cells are compared with HOL
  equality: all \<open>CNaN\<close> are one dictionary key here, where Python keys \<^verbatim>\<open>NaN\<close> objects by
  identity, and an integer and a float of the same value are two keys, where Python makes
  them one.
\<close>

datatype cell = CStr pystr | CInt int | CFloat rat | CNaN

datatype py_error = KeyError string | TypeError | UnicodeEncodeError | OSError

text \<open>
  What the Python runtime fixes and the source does not: the text of \<^verbatim>\<open>repr\<close> of a float,
  the order in which a \<^verbatim>\<open>set\<close> is iterated (it follows the hashes, which for strings
  change from one process to the next), and what \<^verbatim>\<open>print\<close> of a text raises on the
  standard output of the process, if anything (\<^verbatim>\<open>UnicodeEncodeError\<close> when the encoding
  of the stream has no code for a character of the text). \<open>set_order\<close> maps the list a
  set is built from to the list its iteration yields.
\<close>

record runtime =
  float_repr :: "rat \<Rightarrow> pystr"
  set_order_str :: "pystr list \<Rightarrow> pystr list"
  set_order_cell :: "cell list \<Rightarrow> cell list"
  print_raises :: "pystr \<Rightarrow> py_error option"

definition valid_runtime :: "runtime \<Rightarrow> bool" where
  "valid_runtime rt =
     ((\<forall>xs. set (set_order_str rt xs) = set xs \<and> distinct (set_order_str rt xs)) \<and>
      (\<forall>xs. set (set_order_cell rt xs) = set xs \<and> distinct (set_order_cell rt xs)))"

text \<open>\<^verbatim>\<open>print(text)\<close>: it returns nothing, or raises.\<close>

definition py_print :: "runtime \<Rightarrow> pystr \<Rightarrow> py_error + unit" where
  "py_print rt t = (case print_raises rt t of Some e \<Rightarrow> Inl e | None \<Rightarrow> Inr ())"

text \<open>\<^verbatim>\<open>str(v)\<close>, which is also what an f-string field without a format writes.\<close>

definition py_str :: "runtime \<Rightarrow> cell \<Rightarrow> pystr" where
  "py_str rt v = (case v of CStr s \<Rightarrow> s | CInt i \<Rightarrow> str_int i
                  | CFloat r \<Rightarrow> float_repr rt r | CNaN \<Rightarrow> asc ''nan'')"

text \<open>Truth value of a cell; \<^verbatim>\<open>NaN\<close> is true.\<close>

definition truthy :: "cell \<Rightarrow> bool" where
  "truthy v = (case v of CStr s \<Rightarrow> s \<noteq> [] | CInt i \<Rightarrow> i \<noteq> 0
               | CFloat r \<Rightarrow> r \<noteq> 0 | CNaN \<Rightarrow> True)"

text \<open>A row (\<^verbatim>\<open>pd.Series\<close>) is the list of its labelled cells; a data frame is the list of
  its rows, and is \<^verbatim>\<open>empty\<close> when it has none (a frame read from a file has columns
  whenever it has rows).\<close>

type_synonym series = "(string \<times> cell) list"
type_synonym dataframe = "series list"

definition df_empty :: "dataframe \<Rightarrow> bool" where
  "df_empty df = (df = [])"

text \<open>\<^verbatim>\<open>row[key]\<close> raises \<^verbatim>\<open>KeyError\<close> on a missing label, \<^verbatim>\<open>row.get(key, default)\<close>
  does not.\<close>

definition getitem :: "series \<Rightarrow> string \<Rightarrow> py_error + cell" where
  "getitem row key = (case map_of row key of None \<Rightarrow> Inl (KeyError key) | Some v \<Rightarrow> Inr v)"

definition get_default :: "series \<Rightarrow> string \<Rightarrow> cell \<Rightarrow> cell" where
  "get_default row key dflt = (case map_of row key of None \<Rightarrow> dflt | Some v \<Rightarrow> v)"

text \<open>
  A \<^verbatim>\<open>dict\<close> iterates in insertion order, and assigning to a key that is present keeps
  the key's place: an association list with update in place. A \<^verbatim>\<open>defaultdict(list)\<close> that
  is only ever appended to is a function from keys to lists, \<open>[]\<close> where the key is absent.
\<close>

fun dict_set :: "'k \<Rightarrow> 'v \<Rightarrow> ('k \<times> 'v) list \<Rightarrow> ('k \<times> 'v) list" where
  "dict_set k v [] = [(k, v)]"
| "dict_set k v (p # d) = (if fst p = k then (k, v) # d else p # dict_set k v d)"

definition dd_append :: "('k \<Rightarrow> 'v list) \<Rightarrow> 'k \<Rightarrow> 'v \<Rightarrow> ('k \<Rightarrow> 'v list)" where
  "dd_append d k v = d(k := d k @ [v])"

section \<open>The memory index\<close>

record memory_entry =
  me_content :: pystr
  me_metadata :: "(string \<times> cell) list"

record memory_index =
  idx_evolution_cases :: "(cell \<times> memory_entry) list"
  idx_crisis_periods :: "(cell \<times> memory_entry) list"
  idx_transplant_cases :: "(cell \<times> memory_entry) list"
  idx_keywords :: "pystr \<Rightarrow> cell list"
  idx_temporal :: "pystr \<Rightarrow> cell list"
  idx_legal_areas :: "cell \<Rightarrow> cell list"

definition empty_index :: memory_index where
  "empty_index = \<lparr> idx_evolution_cases = [], idx_crisis_periods = [], idx_transplant_cases = [],
     idx_keywords = (\<lambda>k. []), idx_temporal = (\<lambda>k. []), idx_legal_areas = (\<lambda>k. []) \<rparr>"

subsection \<open>Memory content\<close>

text \<open>
  An f-string is a list of pieces, evaluated left to right: literal text, \<^verbatim>\<open>{row['k']}\<close>
  and \<^verbatim>\<open>{row.get('k', '')}\<close>. The first missing label raises.
\<close>

datatype piece = Lit pystr | Fld string | FldGet string

fun render :: "runtime \<Rightarrow> series \<Rightarrow> piece list \<Rightarrow> py_error + pystr" where
  "render rt row [] = Inr []"
| "render rt row (Lit s # ps) =
     (case render rt row ps of Inl e \<Rightarrow> Inl e | Inr t \<Rightarrow> Inr (s @ t))"
| "render rt row (Fld k # ps) =
     (case getitem row k of Inl e \<Rightarrow> Inl e
      | Inr v \<Rightarrow> (case render rt row ps of Inl e \<Rightarrow> Inl e | Inr t \<Rightarrow> Inr (py_str rt v @ t)))"
| "render rt row (FldGet k # ps) =
     (case render rt row ps of Inl e \<Rightarrow> Inl e
      | Inr t \<Rightarrow> Inr (py_str rt (get_default row k (CStr [])) @ t))"

text \<open>A template line: a newline, eight spaces and the label.\<close>

definition line :: "string \<Rightarrow> piece" where
  "line label = Lit (10 # asc ''        '' @ asc label)"

definition build_case_memory :: "runtime \<Rightarrow> series \<Rightarrow> py_error + pystr" where
  "build_case_memory rt case_row = render rt case_row
     [line ''Legal Evolution Case: '', Fld ''nombre_caso'',
      line ''Legal Area: '', Fld ''area_derecho'',
      line ''Period: '', Fld ''fecha_inicio'', Lit (asc '' to ''), Fld ''fecha_fin'',
      line ''Evolution Type: '', Fld ''tipo_seleccion'',
      line ''Origin: '', Fld ''origen'',
      line ''Success Level: '', Fld ''exito'',
      line ''Environmental Pressure: '', Fld ''presion_ambiental'',
      line ''Key Actors: '', Fld ''actores_principales'',
      line ''Primary Legislation: '', Fld ''normativa_primaria'',
      line ''Relevant Rulings: '', Fld ''fallos_relevantes'',
      line ''Survival Years: '', Fld ''supervivencia_anos'',
      line ''Mutations: '', Fld ''mutaciones_identificadas'',
      line ''International Diffusion: '', Fld ''difusion_otras_jurisdicciones'',
      line ''Notes: '', FldGet ''notas'',
      line []]"

definition build_crisis_memory :: "runtime \<Rightarrow> series \<Rightarrow> py_error + pystr" where
  "build_crisis_memory rt crisis = render rt crisis
     [line ''Crisis Period: '', Fld ''crisis_name'',
      line ''Duration: '', Fld ''start_date'', Lit (asc '' to ''), Fld ''end_date'',
      line ''Type: '', Fld ''crisis_type'',
      line ''Severity: '', Fld ''severity_level'',
      line ''Legal Changes: '', Fld ''legal_changes_count'',
      line ''Emergency Decrees: '', Fld ''emergency_decrees'',
      line ''New Laws: '', Fld ''new_laws'',
      line ''Acceleration Factor: '', Fld ''acceleration_factor'',
      line ''Economic Indicators: '', Fld ''economic_indicators'',
      line ''Recovery Timeline: '', Fld ''recovery_timeline_months'', Lit (asc '' months''),
      line ''Long-term Impact: '', Fld ''long_term_institutional_impact'',
      line []]"

subsection \<open>Keyword extraction\<close>

definition stopwords :: "pystr list" where
  "stopwords = map asc [''de'', ''la'', ''el'', ''en'', ''y'', ''a'', ''que'', ''del'', ''las'',
     ''los'', ''con'', ''por'', ''para'']"

text \<open>\<^verbatim>\<open>_extract_keywords\<close> on a string (for which \<^verbatim>\<open>pd.isna\<close> is false). The result is
  \<^verbatim>\<open>list(set(keywords))\<close>.\<close>

definition extract_keywords :: "runtime \<Rightarrow> pystr \<Rightarrow> pystr list" where
  "extract_keywords rt text =
     (let words = findall_words (lower text);
          keywords = filter (\<lambda>w. length w > 3 \<and> w \<notin> set stopwords) words
      in set_order_str rt keywords)"

subsection \<open>Building the index\<close>

text \<open>\<^verbatim>\<open>v + " "\<close> for a cell \<open>v\<close>: concatenation when \<open>v\<close> is a string, \<^verbatim>\<open>TypeError\<close>
  otherwise.\<close>

definition str_add :: "cell \<Rightarrow> pystr \<Rightarrow> py_error + pystr" where
  "str_add v t = (case v of CStr s \<Rightarrow> Inr (s @ t) | _ \<Rightarrow> Inl TypeError)"

text \<open>The loop \<^verbatim>\<open>for keyword in keywords\<close>, which appends the case to the entry of
  each keyword.\<close>

definition index_keywords :: "pystr list \<Rightarrow> cell \<Rightarrow> (pystr \<Rightarrow> cell list) \<Rightarrow> (pystr \<Rightarrow> cell list)" where
  "index_keywords keywords case_id d = fold (\<lambda>keyword d. dd_append d (lower keyword) case_id) keywords d"

text \<open>The body of the loop over \<^verbatim>\<open>self.evolution_cases.iterrows()\<close>. An exception leaves
  the loop and \<^verbatim>\<open>_build_memory_index\<close>: nothing catches it.\<close>

definition index_case :: "runtime \<Rightarrow> memory_index \<Rightarrow> series \<Rightarrow> py_error + memory_index" where
  "index_case rt idx case_row =
     (case getitem case_row ''case_id'' of Inl e \<Rightarrow> Inl e | Inr case_id \<Rightarrow>
     (case build_case_memory rt case_row of Inl e \<Rightarrow> Inl e | Inr content \<Rightarrow>
     (case getitem case_row ''area_derecho'' of Inl e \<Rightarrow> Inl e | Inr area_derecho \<Rightarrow>
     (case getitem case_row ''fecha_inicio'' of Inl e \<Rightarrow> Inl e | Inr fecha_inicio \<Rightarrow>
     (case getitem case_row ''exito'' of Inl e \<Rightarrow> Inl e | Inr exito \<Rightarrow>
     (let entry = \<lparr> me_content = content,
                     me_metadata = [(''legal_area'', area_derecho), (''start_date'', fecha_inicio),
                                    (''success'', exito), (''type'', CStr (asc ''evolution_case''))] \<rparr>;
          idx1 = idx \<lparr> idx_evolution_cases := dict_set case_id entry (idx_evolution_cases idx) \<rparr>
      in
     (case getitem case_row ''nombre_caso'' of Inl e \<Rightarrow> Inl e | Inr nombre_caso \<Rightarrow>
     (case str_add nombre_caso (asc '' '') of Inl e \<Rightarrow> Inl e | Inr prefix \<Rightarrow>
     (let keywords = extract_keywords rt
                       (prefix @ py_str rt (get_default case_row ''notas'' (CStr [])));
          idx2 = idx1 \<lparr> idx_keywords := index_keywords keywords case_id (idx_keywords idx1) \<rparr>;
          year = take 4 (py_str rt fecha_inicio);
          idx3 = idx2 \<lparr> idx_temporal := dd_append (idx_temporal idx2) year case_id \<rparr>;
          idx4 = idx3 \<lparr> idx_legal_areas := dd_append (idx_legal_areas idx3) area_derecho case_id \<rparr>
      in Inr idx4)))))))))"

fun index_cases :: "runtime \<Rightarrow> memory_index \<Rightarrow> dataframe \<Rightarrow> py_error + memory_index" where
  "index_cases rt idx [] = Inr idx"
| "index_cases rt idx (case_row # rest) =
     (case index_case rt idx case_row of Inl e \<Rightarrow> Inl e | Inr idx' \<Rightarrow> index_cases rt idx' rest)"

text \<open>The body of the loop over \<^verbatim>\<open>self.crisis_periods.iterrows()\<close>.\<close>

definition index_crisis :: "runtime \<Rightarrow> memory_index \<Rightarrow> series \<Rightarrow> py_error + memory_index" where
  "index_crisis rt idx crisis =
     (case getitem crisis ''crisis_id'' of Inl e \<Rightarrow> Inl e | Inr crisis_id \<Rightarrow>
     (case build_crisis_memory rt crisis of Inl e \<Rightarrow> Inl e | Inr content \<Rightarrow>
     (case getitem crisis ''crisis_type'' of Inl e \<Rightarrow> Inl e | Inr crisis_type \<Rightarrow>
     (case getitem crisis ''severity_level'' of Inl e \<Rightarrow> Inl e | Inr severity_level \<Rightarrow>
     (case getitem crisis ''start_date'' of Inl e \<Rightarrow> Inl e | Inr start_date \<Rightarrow>
     (let entry = \<lparr> me_content = content,
                     me_metadata = [(''crisis_type'', crisis_type), (''severity'', severity_level),
                                    (''start_date'', start_date), (''type'', CStr (asc ''crisis_period''))] \<rparr>
      in Inr (idx \<lparr> idx_crisis_periods := dict_set crisis_id entry (idx_crisis_periods idx) \<rparr>)))))))"

fun index_crises :: "runtime \<Rightarrow> memory_index \<Rightarrow> dataframe \<Rightarrow> py_error + memory_index" where
  "index_crises rt idx [] = Inr idx"
| "index_crises rt idx (crisis # rest) =
     (case index_crisis rt idx crisis of Inl e \<Rightarrow> Inl e | Inr idx' \<Rightarrow> index_crises rt idx' rest)"

text \<open>The line \<^verbatim>\<open>_build_memory_index\<close> prints last; it begins with the code point
  U+1F9E0.\<close>

definition index_built_line :: "memory_index \<Rightarrow> pystr" where
  "index_built_line idx =
     [129504] @ asc '' Memory index built: '' @ digits_of (length (idx_evolution_cases idx))
       @ asc '' cases, '' @ digits_of (length (idx_crisis_periods idx)) @ asc '' crises''"

text \<open>\<^verbatim>\<open>_build_memory_index\<close>: the index is created empty, then filled from the evolution
  cases and from the crisis periods, and the line is printed.\<close>

definition build_memory_index :: "runtime \<Rightarrow> dataframe \<Rightarrow> dataframe \<Rightarrow> py_error + memory_index" where
  "build_memory_index rt evolution_cases crisis_periods =
     (case (if \<not> df_empty evolution_cases then index_cases rt empty_index evolution_cases
            else Inr empty_index) of
        Inl e \<Rightarrow> Inl e
      | Inr idx1 \<Rightarrow>
          (case (if \<not> df_empty crisis_periods then index_crises rt idx1 crisis_periods
                 else Inr idx1) of
             Inl e \<Rightarrow> Inl e
           | Inr idx \<Rightarrow>
               (case py_print rt (index_built_line idx) of
                  Inl e \<Rightarrow> Inl e
                | Inr u \<Rightarrow> Inr idx)))"

section \<open>Retrieval\<close>

record config =
  retrieval_top_k :: int
  legal_domains :: "pystr list"

definition default_config :: config where
  "default_config = \<lparr> retrieval_top_k = 20,
     legal_domains = map asc [''constitucional'', ''civil'', ''comercial'', ''financiero'',
       ''administrativo'', ''procesal'', ''criminal'', ''laboral'', ''tributario'', ''cambiario'',
       ''bancario'', ''ambiental''] \<rparr>"

text \<open>\<^verbatim>\<open>_calculate_relevance_score\<close>.\<close>

definition calculate_relevance_score :: "pystr \<Rightarrow> pystr list \<Rightarrow> rat" where
  "calculate_relevance_score content keywords =
     (if keywords = [] then 0
      else let content_lower = lower content;
               matches = length (filter (\<lambda>keyword. contains content_lower keyword) keywords)
           in int_truediv (int matches) (int (length keywords)))"

record scored_case =
  sc_id :: cell
  sc_type :: pystr
  sc_score :: rat
  sc_content :: pystr
  sc_metadata :: "(string \<times> cell) list"

text \<open>One of the two scans of \<^verbatim>\<open>_search_memory\<close>: the entries of a partition, in the
  order of the dictionary, that score above zero.\<close>

definition scan_partition :: "pystr \<Rightarrow> pystr list \<Rightarrow> (cell \<times> memory_entry) list \<Rightarrow> scored_case list" where
  "scan_partition type_name keywords entries =
     concat (map (\<lambda>(entry_id, entry_data).
        let score = calculate_relevance_score (me_content entry_data) keywords
        in if score > 0
           then [\<lparr> sc_id = entry_id, sc_type = type_name, sc_score = score,
                   sc_content = me_content entry_data, sc_metadata = me_metadata entry_data \<rparr>]
           else []) entries)"

text \<open>\<^verbatim>\<open>xs.sort(key=f, reverse=True)\<close>: CPython reverses the list, sorts it stably in
  ascending order and reverses it again.\<close>

definition sort_reverse :: "('a \<Rightarrow> 'k::linorder) \<Rightarrow> 'a list \<Rightarrow> 'a list" where
  "sort_reverse f xs = rev (sort_key f (rev xs))"

text \<open>The slice \<^verbatim>\<open>xs[:k]\<close>; a negative \<open>k\<close> counts from the end.\<close>

definition slice_to :: "'a list \<Rightarrow> int \<Rightarrow> 'a list" where
  "slice_to xs k = (if 0 \<le> k then take (nat k) xs else take (nat (int (length xs) + k)) xs)"

text \<open>\<^verbatim>\<open>not context_type\<close> holds for \<^verbatim>\<open>None\<close> and for the empty string.\<close>

definition not_context :: "pystr option \<Rightarrow> bool" where
  "not_context context_type = (case context_type of None \<Rightarrow> True | Some t \<Rightarrow> t = [])"

text \<open>The two scans of \<^verbatim>\<open>_search_memory\<close>: the list \<^verbatim>\<open>scored_cases\<close> before it is
  sorted.\<close>

definition scan_memory :: "memory_index \<Rightarrow> pystr list \<Rightarrow> pystr option \<Rightarrow> scored_case list" where
  "scan_memory idx keywords context_type =
     (let scored_cases = [];
          scored_cases = (if not_context context_type \<or> context_type = Some (asc ''evolution_cases'')
                          then scored_cases @ scan_partition (asc ''evolution_case'') keywords (idx_evolution_cases idx)
                          else scored_cases);
          scored_cases = (if not_context context_type \<or> context_type = Some (asc ''crisis_periods'')
                          then scored_cases @ scan_partition (asc ''crisis_period'') keywords (idx_crisis_periods idx)
                          else scored_cases)
      in scored_cases)"

text \<open>\<^verbatim>\<open>_search_memory\<close>.\<close>

definition search_memory :: "config \<Rightarrow> memory_index \<Rightarrow> pystr list \<Rightarrow> pystr option \<Rightarrow> scored_case list" where
  "search_memory cfg idx keywords context_type =
     (let scored_cases = sort_reverse sc_score (scan_memory idx keywords context_type)
      in slice_to scored_cases (retrieval_top_k cfg))"

section \<open>Response synthesis\<close>

text \<open>\<^verbatim>\<open>sep.join(xs)\<close>.\<close>

fun join :: "pystr \<Rightarrow> pystr list \<Rightarrow> pystr" where
  "join sep [] = []"
| "join sep [x] = x"
| "join sep (x # y # ys) = x @ sep @ join sep (y # ys)"

text \<open>\<^verbatim>\<open>max(xs, key=f)\<close> over an iteration that yields \<open>x\<close> first: the first element with
  the greatest key.\<close>

definition max_key :: "('a \<Rightarrow> nat) \<Rightarrow> 'a \<Rightarrow> 'a list \<Rightarrow> 'a" where
  "max_key f x xs = foldl (\<lambda>best y. if f best < f y then y else best) x xs"

text \<open>\<^verbatim>\<open>max(set(areas), key=areas.count)\<close>; \<open>None\<close> stands for the \<^verbatim>\<open>ValueError\<close> of an empty
  set, which the guard \<^verbatim>\<open>if areas\<close> excludes.\<close>

definition most_common :: "runtime \<Rightarrow> cell list \<Rightarrow> cell option" where
  "most_common rt areas =
     (case set_order_cell rt areas of [] \<Rightarrow> None
      | x # xs \<Rightarrow> Some (max_key (count_list areas) x xs))"

text \<open>\<^verbatim>\<open>[c['metadata'].get(k) for c in cases if c['metadata'].get(k)]\<close>.\<close>

definition metadata_values :: "string \<Rightarrow> scored_case list \<Rightarrow> cell list" where
  "metadata_values k cases =
     concat (map (\<lambda>c. case map_of (sc_metadata c) k of
                          None \<Rightarrow> [] | Some v \<Rightarrow> (if truthy v then [v] else [])) cases)"

text \<open>\<^verbatim>\<open>[d[:4] for d in dates if d and len(d) >= 4]\<close>: \<^verbatim>\<open>len\<close> of a cell that is not a
  string raises \<^verbatim>\<open>TypeError\<close>.\<close>

fun years_of :: "cell list \<Rightarrow> py_error + pystr list" where
  "years_of [] = Inr []"
| "years_of (d # ds) =
     (if \<not> truthy d then years_of ds
      else case d of
             CStr s \<Rightarrow> (case years_of ds of Inl e \<Rightarrow> Inl e
                         | Inr ys \<Rightarrow> Inr (if 4 \<le> length s then take 4 s # ys else ys))
           | _ \<Rightarrow> Inl TypeError)"

text \<open>\<^verbatim>\<open>_generate_insights\<close>. Strings compare as Python compares them, code point by code
  point.\<close>

definition generate_insights :: "runtime \<Rightarrow> scored_case list \<Rightarrow> py_error + pystr" where
  "generate_insights rt cases =
     (if cases = [] then Inr (asc ''No se generaron insights suficientes.'' @ [10])
      else
        let areas = metadata_values ''legal_area'' cases;
            insights1 = (case most_common rt areas of
                           None \<Rightarrow> []
                         | Some most_common_area \<Rightarrow>
                             [asc ''- '' @ [193] @ asc ''rea legal m'' @ [225] @ asc ''s relevante: ''
                                @ py_str rt most_common_area]);
            successes = metadata_values ''success'' cases;
            insights2 = (if successes \<noteq> []
                         then let success_rate =
                                    fmul (int_truediv (int (count_list successes (CStr (asc ''Exitoso''))))
                                                      (int (length successes)))
                                         (float_of_int 100)
                              in [asc ''- Tasa de '' @ [233] @ asc ''xito en casos relevantes: ''
                                    @ format_fixed 1 success_rate @ asc ''%'']
                         else []);
            dates = metadata_values ''start_date'' cases
        in case (if dates \<noteq> [] then years_of dates else Inr []) of
             Inl e \<Rightarrow> Inl e
           | Inr years \<Rightarrow>
               let insights3 = (case years of
                                  [] \<Rightarrow> []
                                | y # ys \<Rightarrow>
                                    [asc ''- Per'' @ [237] @ asc ''odo temporal: ''
                                       @ fold min ys y @ asc ''-'' @ fold max ys y])
               in Inr (join [10] (insights1 @ insights2 @ insights3) @ [10]))"

text \<open>\<^verbatim>\<open>metadata[k]\<close> on the metadata dictionary of a match.\<close>

definition metadata_item :: "(string \<times> cell) list \<Rightarrow> string \<Rightarrow> py_error + cell" where
  "metadata_item md k = (case map_of md k of None \<Rightarrow> Inl (KeyError k) | Some v \<Rightarrow> Inr v)"

text \<open>One numbered line of the listing of evolution cases, and one of the crisis periods.\<close>

definition case_line :: "runtime \<Rightarrow> nat \<times> scored_case \<Rightarrow> py_error + pystr" where
  "case_line rt ic =
     (let metadata = sc_metadata (snd ic) in
     (case metadata_item metadata ''legal_area'' of Inl e \<Rightarrow> Inl e | Inr legal_area \<Rightarrow>
     (case metadata_item metadata ''start_date'' of Inl e \<Rightarrow> Inl e | Inr start_date \<Rightarrow>
     (case metadata_item metadata ''success'' of Inl e \<Rightarrow> Inl e | Inr success \<Rightarrow>
      Inr (digits_of (fst ic) @ asc ''. '' @ [193] @ asc ''rea: '' @ py_str rt legal_area @ asc '', ''
           @ asc ''Inicio: '' @ py_str rt start_date @ asc '', ''
           @ [201] @ asc ''xito: '' @ py_str rt success @ asc '' ''
           @ asc ''(Score: '' @ format_fixed 2 (sc_score (snd ic)) @ asc '')'' @ [10])))))"

definition crisis_line :: "runtime \<Rightarrow> nat \<times> scored_case \<Rightarrow> py_error + pystr" where
  "crisis_line rt ic =
     (let metadata = sc_metadata (snd ic) in
     (case metadata_item metadata ''crisis_type'' of Inl e \<Rightarrow> Inl e | Inr crisis_type \<Rightarrow>
     (case metadata_item metadata ''severity'' of Inl e \<Rightarrow> Inl e | Inr severity \<Rightarrow>
     (case metadata_item metadata ''start_date'' of Inl e \<Rightarrow> Inl e | Inr start_date \<Rightarrow>
      Inr (digits_of (fst ic) @ asc ''. Tipo: '' @ py_str rt crisis_type @ asc '', ''
           @ asc ''Severidad: '' @ py_str rt severity @ asc '', ''
           @ asc ''Inicio: '' @ py_str rt start_date @ asc '' ''
           @ asc ''(Score: '' @ format_fixed 2 (sc_score (snd ic)) @ asc '')'' @ [10])))))"

text \<open>A \<^verbatim>\<open>for\<close> loop that appends one rendered line per element to the response.\<close>

fun append_lines :: "('a \<Rightarrow> py_error + pystr) \<Rightarrow> 'a list \<Rightarrow> pystr \<Rightarrow> py_error + pystr" where
  "append_lines f [] response = Inr response"
| "append_lines f (x # xs) response =
     (case f x of Inl e \<Rightarrow> Inl e | Inr l \<Rightarrow> append_lines f xs (response @ l))"

definition no_cases_message :: pystr where
  "no_cases_message = asc ''No se encontraron casos relevantes para la consulta.''"

text \<open>The block \<^verbatim>\<open>if evolution_cases:\<close> of \<^verbatim>\<open>_generate_response\<close>: the header, which
  begins with the code point U+1F4CA, one line for each of the first five cases, and an
  empty line.\<close>

definition evolution_section :: "runtime \<Rightarrow> scored_case list \<Rightarrow> pystr \<Rightarrow> py_error + pystr" where
  "evolution_section rt evolution_cases response =
     (if evolution_cases \<noteq> []
      then (case append_lines (case_line rt) (enumerate 1 (take 5 evolution_cases))
                   (response @ [128202] @ asc '' CASOS DE EVOLUCI'' @ [211]
                      @ asc ''N LEGAL RELEVANTES:'' @ [10]) of
              Inl e \<Rightarrow> Inl e
            | Inr r \<Rightarrow> Inr (r @ [10]))
      else Inr response)"

text \<open>The block \<^verbatim>\<open>if crisis_cases:\<close>; its header begins with U+26A1.\<close>

definition crisis_section :: "runtime \<Rightarrow> scored_case list \<Rightarrow> pystr \<Rightarrow> py_error + pystr" where
  "crisis_section rt crisis_cases response =
     (if crisis_cases \<noteq> []
      then (case append_lines (crisis_line rt) (enumerate 1 (take 3 crisis_cases))
                   (response @ [9889] @ asc '' PER'' @ [205]
                      @ asc ''ODOS DE CRISIS RELEVANTES:'' @ [10]) of
              Inl e \<Rightarrow> Inl e
            | Inr r \<Rightarrow> Inr (r @ [10]))
      else Inr response)"

text \<open>The first two lines of the response.\<close>

definition response_header :: "pystr \<Rightarrow> pystr" where
  "response_header query =
     asc ''An'' @ [225] @ asc ''lisis de evoluci'' @ [243] @ asc ''n legal para: ''
       @ [39] @ query @ [39, 10, 10]
       @ asc ''Basado en el an'' @ [225]
       @ asc ''lisis del dataset Legal Evolution Dataset con Reality Filter:'' @ [10, 10]"

text \<open>\<^verbatim>\<open>_generate_response\<close>; the header of the insights begins with U+1F3AF.\<close>

definition generate_response :: "runtime \<Rightarrow> pystr \<Rightarrow> scored_case list \<Rightarrow> py_error + pystr" where
  "generate_response rt query relevant_cases =
     (if relevant_cases = [] then Inr no_cases_message
      else
        (case evolution_section rt (filter (\<lambda>c. sc_type c = asc ''evolution_case'') relevant_cases)
                (response_header query) of
           Inl e \<Rightarrow> Inl e
         | Inr response1 \<Rightarrow>
             (case crisis_section rt (filter (\<lambda>c. sc_type c = asc ''crisis_period'') relevant_cases)
                     response1 of
                Inl e \<Rightarrow> Inl e
              | Inr response2 \<Rightarrow>
                  (case generate_insights rt relevant_cases of
                     Inl e \<Rightarrow> Inl e
                   | Inr insights \<Rightarrow>
                       Inr (response2 @ [127919] @ asc '' INSIGHTS PRINCIPALES:'' @ [10] @ insights)))))"

section \<open>Response analysis\<close>

record analysis =
  legal_areas_mentioned :: "pystr list"
  temporal_patterns :: "pystr list"
  evolution_mechanisms :: "pystr list"
  success_indicators :: "pystr list"
  crisis_indicators :: "pystr list"

text \<open>The assertion \<^verbatim>\<open>\b\<close> between two neighbouring characters; \<open>None\<close> is an end of the
  text.\<close>

definition word_at :: "int option \<Rightarrow> bool" where
  "word_at c = (case c of None \<Rightarrow> False | Some x \<Rightarrow> is_word_cp x)"

definition boundary :: "int option \<Rightarrow> int option \<Rightarrow> bool" where
  "boundary prev nxt = (word_at prev \<noteq> word_at nxt)"

definition first_opt :: "'a list \<Rightarrow> 'a option" where
  "first_opt xs = (case xs of [] \<Rightarrow> None | x # _ \<Rightarrow> Some x)"

text \<open>
  \<^verbatim>\<open>re.findall(r'\b(19|20)\d{2}\b', response)\<close>, scanning from left to right; the first
  argument is the character before the current position. The pattern has one group, so
  \<^verbatim>\<open>findall\<close> returns, for every match, the text of that group.
\<close>

fun findall_years :: "int option \<Rightarrow> pystr \<Rightarrow> pystr list" where
  "findall_years prev (a # b # c # d # rest) =
     (if boundary prev (Some a) \<and> ([a, b] = asc ''19'' \<or> [a, b] = asc ''20'')
         \<and> is_digit_cp c \<and> is_digit_cp d \<and> boundary (Some d) (first_opt rest)
      then [a, b] # findall_years (Some d) rest
      else findall_years (Some a) (b # c # d # rest))"
| "findall_years prev s = []"

text \<open>
  The temporal patterns as the specification words them, for comparison: every 4-digit
  token that begins with 19 or 20, whole.
\<close>

fun spec_year_tokens :: "int option \<Rightarrow> pystr \<Rightarrow> pystr list" where
  "spec_year_tokens prev (a # b # c # d # rest) =
     (if boundary prev (Some a) \<and> ([a, b] = asc ''19'' \<or> [a, b] = asc ''20'')
         \<and> is_digit_cp c \<and> is_digit_cp d \<and> boundary (Some d) (first_opt rest)
      then [a, b, c, d] # spec_year_tokens (Some d) rest
      else spec_year_tokens (Some a) (b # c # d # rest))"
| "spec_year_tokens prev s = []"

definition mechanisms :: "pystr list" where
  "mechanisms = map asc [''acumulativa'', ''artificial'', ''mixta'', ''transplante'', ''endogeno'',
     ''hibrido'']"

definition success_terms :: "pystr list" where
  "success_terms = map asc [''exitoso'', ''parcial'', ''fracaso'', ''en_desarrollo'']"

text \<open>\<^verbatim>\<open>_analyze_response\<close>.\<close>

definition analyze_response :: "runtime \<Rightarrow> config \<Rightarrow> pystr \<Rightarrow> pystr \<Rightarrow> analysis" where
  "analyze_response rt cfg response query =
     (let response_lower = lower response;
          years = findall_years None response
      in \<lparr> legal_areas_mentioned = filter (\<lambda>area. contains response_lower area) (legal_domains cfg),
           temporal_patterns = set_order_str rt years,
           evolution_mechanisms = filter (\<lambda>mechanism. contains response_lower mechanism) mechanisms,
           success_indicators = filter (\<lambda>term. contains response_lower term) success_terms,
           crisis_indicators = [] \<rparr>)"

section \<open>Confidence\<close>

text \<open>\<^verbatim>\<open>sum\<close> starts from the integer 0 and adds the floats in order. (From version 3.12
  on, CPython adds a compensation term at the end, which can change the last bit of a sum
  of several floats; the sum of one float is that float in every version.)\<close>

definition py_sum :: "rat list \<Rightarrow> rat" where
  "py_sum xs = foldl fadd 0 xs"

text \<open>\<^verbatim>\<open>_calculate_confidence\<close>; the keyword list is not used.\<close>

definition calculate_confidence :: "scored_case list \<Rightarrow> pystr list \<Rightarrow> rat" where
  "calculate_confidence cases keywords =
     (if cases = [] then 0
      else
        let base_confidence = flit (6/10);
            case_boost = min (fmul (float_of_int (int (length cases))) (flit (5/100))) (flit (3/10));
            base_confidence = fadd base_confidence case_boost;
            avg_score = fdiv (py_sum (map sc_score cases)) (float_of_int (int (length cases)));
            score_boost = fmul avg_score (flit (2/10));
            base_confidence = fadd base_confidence score_boost;
            verified_boost = flit (1/10);
            base_confidence = fadd base_confidence verified_boost
        in min base_confidence (flit 1))"

section \<open>Sources\<close>

text \<open>
  The patterns of \<^verbatim>\<open>_extract_sources\<close> are sequences of literal characters and \<^verbatim>\<open>\d+\<close>,
  matched with \<^verbatim>\<open>re.IGNORECASE\<close>. Every \<^verbatim>\<open>\d+\<close> is followed by a character that is no
  digit or ends the pattern, so the greedy match never backtracks. Case is ignored exactly
  on code points below 256.
\<close>

datatype tok = Ch int | Digits

definition lit :: "string \<Rightarrow> tok list" where
  "lit s = map (\<lambda>c. Ch (of_char c)) s"

fun match_here :: "tok list \<Rightarrow> pystr \<Rightarrow> pystr option" where
  "match_here [] s = Some []"
| "match_here (Ch c # ts) [] = None"
| "match_here (Ch c # ts) (x # s) =
     (if lower_cp x = lower_cp c then map_option ((#) x) (match_here ts s) else None)"
| "match_here (Digits # ts) s =
     (let ds = takeWhile is_digit_cp s
      in if ds = [] then None else map_option ((@) ds) (match_here ts (dropWhile is_digit_cp s)))"

text \<open>\<^verbatim>\<open>re.findall(pattern, s, re.IGNORECASE)\<close> for a pattern without groups that matches
  no empty text: the matches, left to right, not overlapping. The number counts the
  characters of the last match still to be passed over.\<close>

fun findall_pattern :: "tok list \<Rightarrow> nat \<Rightarrow> pystr \<Rightarrow> pystr list" where
  "findall_pattern ts n [] = []"
| "findall_pattern ts (Suc n) (x # s) = findall_pattern ts n s"
| "findall_pattern ts 0 (x # s) =
     (case match_here ts (x # s) of
        Some m \<Rightarrow> m # findall_pattern ts (length m - 1) s
      | None \<Rightarrow> findall_pattern ts 0 s)"

definition source_patterns :: "tok list list" where
  "source_patterns =
     [lit ''Ley '' @ [Digits, Ch 46, Digits],
      lit ''Decreto '' @ [Digits, Ch 47, Digits],
      lit ''Fallos '' @ [Digits, Ch 58, Digits],
      lit ''InfoLeg'', lit ''SAIJ'', lit ''CSJN'', lit ''BCRA'', lit ''CNV'']"

definition extract_sources :: "runtime \<Rightarrow> pystr \<Rightarrow> pystr list" where
  "extract_sources rt response =
     set_order_str rt (concat (map (\<lambda>pattern. findall_pattern pattern 0 response) source_patterns))"

section \<open>The query\<close>

record query_ok =
  q_query :: pystr
  q_response :: pystr
  q_analysis :: analysis
  q_relevant_cases :: "cell list"
  q_confidence :: rat
  q_sources :: "pystr list"
  q_timestamp :: pystr

text \<open>The dictionary \<^verbatim>\<open>query_legal_evolution\<close> returns: the result, or the query, the
  exception (for \<^verbatim>\<open>str(e)\<close>) and the timestamp.\<close>

datatype query_result = Result query_ok | Failure pystr py_error pystr

text \<open>The two lines the query prints, the first before anything else and the second when
  the result is complete; they begin with the code points U+1F50D and U+2705.\<close>

definition processing_line :: "pystr \<Rightarrow> pystr" where
  "processing_line query = [128269] @ asc '' Processing query: '' @ query"

definition processed_line :: "rat \<Rightarrow> pystr" where
  "processed_line confidence =
     [9989] @ asc '' Query processed - Confidence: '' @ format_fixed 2 confidence"

text \<open>The body of the \<^verbatim>\<open>try\<close> block; \<open>now\<close> is what \<^verbatim>\<open>datetime.now().isoformat()\<close>
  returns.\<close>

definition query_pipeline ::
    "runtime \<Rightarrow> config \<Rightarrow> memory_index \<Rightarrow> pystr \<Rightarrow> pystr \<Rightarrow> pystr option \<Rightarrow> py_error + query_ok" where
  "query_pipeline rt cfg idx now query context_type =
     (case py_print rt (processing_line query) of
        Inl e \<Rightarrow> Inl e
      | Inr u \<Rightarrow>
          (let query_keywords = extract_keywords rt query;
               relevant_cases = search_memory cfg idx query_keywords context_type
           in (case generate_response rt query relevant_cases of
                 Inl e \<Rightarrow> Inl e
               | Inr response \<Rightarrow>
                   (let analysis = analyze_response rt cfg response query;
                        result = \<lparr> q_query = query, q_response = response, q_analysis = analysis,
                                   q_relevant_cases = map sc_id relevant_cases,
                                   q_confidence = calculate_confidence relevant_cases query_keywords,
                                   q_sources = extract_sources rt response,
                                   q_timestamp = now \<rparr>
                    in (case py_print rt (processed_line (q_confidence result)) of
                          Inl e \<Rightarrow> Inl e
                        | Inr u \<Rightarrow> Inr result)))))"

text \<open>\<^verbatim>\<open>query_legal_evolution\<close>: \<^verbatim>\<open>except Exception\<close> turns every exception of the body
  into the error dictionary.\<close>

definition query_legal_evolution ::
    "runtime \<Rightarrow> config \<Rightarrow> memory_index \<Rightarrow> pystr \<Rightarrow> pystr \<Rightarrow> pystr option \<Rightarrow> query_result" where
  "query_legal_evolution rt cfg idx now query context_type =
     (case query_pipeline rt cfg idx now query context_type of
        Inr result \<Rightarrow> Result result
      | Inl e \<Rightarrow> Failure query e now)"

section \<open>Example data\<close>

text \<open>A standard output that encodes in UTF-8: \<^verbatim>\<open>print\<close> raises on a text with a
  surrogate code point (U+D800 to U+DFFF), which has no UTF-8 code, and on no other.\<close>

definition utf8_stdout :: "pystr \<Rightarrow> py_error option" where
  "utf8_stdout t = (if list_ex (\<lambda>c. 55296 \<le> c \<and> c \<le> 57343) t then Some UnicodeEncodeError else None)"

text \<open>A runtime whose sets iterate in the order of first insertion, and one whose sets
  iterate in the reverse order; both print to a UTF-8 standard output.\<close>

definition runtime_fifo :: runtime where
  "runtime_fifo = \<lparr> float_repr = (\<lambda>r. format_fixed 1 r), set_order_str = remdups,
     set_order_cell = remdups, print_raises = utf8_stdout \<rparr>"

definition runtime_lifo :: runtime where
  "runtime_lifo = \<lparr> float_repr = (\<lambda>r. format_fixed 1 r), set_order_str = (\<lambda>xs. rev (remdups xs)),
     set_order_cell = (\<lambda>xs. rev (remdups xs)), print_raises = utf8_stdout \<rparr>"

text \<open>An index with three evolution cases and one crisis period.\<close>

definition example_index :: memory_index where
  "example_index = empty_index \<lparr>
     idx_evolution_cases :=
       [(CStr (asc ''E1''), \<lparr> me_content = asc ''Trust law'', me_metadata = [] \<rparr>),
        (CStr (asc ''E2''), \<lparr> me_content = asc ''Bank trust'', me_metadata = [] \<rparr>),
        (CStr (asc ''E3''), \<lparr> me_content = asc ''trust fund'', me_metadata = [] \<rparr>)],
     idx_crisis_periods :=
       [(CStr (asc ''K1''), \<lparr> me_content = asc ''bank run'', me_metadata = [] \<rparr>)] \<rparr>"

text \<open>The match of the scenario of the specification: one evolution case of score 1.\<close>

definition example_match :: scored_case where
  "example_match = \<lparr> sc_id = CStr (asc ''C1''), sc_type = asc ''evolution_case'', sc_score = 1,
     sc_content = asc ''fideicomiso financiero'',
     sc_metadata = [(''legal_area'', CStr (asc ''civil'')), (''start_date'', CStr (asc ''1995-01-01'')),
                    (''success'', CStr (asc ''Exitoso'')), (''type'', CStr (asc ''evolution_case''))] \<rparr>"

text \<open>A second match, of another legal area.\<close>

definition example_match_penal :: scored_case where
  "example_match_penal = \<lparr> sc_id = CStr (asc ''C2''), sc_type = asc ''evolution_case'', sc_score = 1,
     sc_content = asc ''fideicomiso de garantia'',
     sc_metadata = [(''legal_area'', CStr (asc ''penal'')), (''start_date'', CStr (asc ''2001-12-03'')),
                    (''success'', CStr (asc ''Parcial'')), (''type'', CStr (asc ''evolution_case''))] \<rparr>"

text \<open>A row of the evolution cases, with the given identifier and start date, and a row of
  the crisis periods.\<close>

definition example_case :: "cell \<Rightarrow> cell \<Rightarrow> series" where
  "example_case case_id fecha_inicio =
     [(''case_id'', case_id), (''nombre_caso'', CStr (asc ''Fideicomiso financiero'')),
      (''area_derecho'', CStr (asc ''civil'')), (''fecha_inicio'', fecha_inicio),
      (''fecha_fin'', CNaN), (''tipo_seleccion'', CStr (asc ''acumulativa'')),
      (''origen'', CStr (asc ''endogeno'')), (''exito'', CStr (asc ''Exitoso'')),
      (''presion_ambiental'', CStr (asc ''alta'')), (''actores_principales'', CStr (asc ''BCRA'')),
      (''normativa_primaria'', CStr (asc ''Ley 24.441'')), (''fallos_relevantes'', CNaN),
      (''supervivencia_anos'', CInt 29), (''mutaciones_identificadas'', CInt 3),
      (''difusion_otras_jurisdicciones'', CStr (asc ''Uruguay'')),
      (''notas'', CStr (asc ''securitizacion''))]"

definition example_crisis :: series where
  "example_crisis =
     [(''crisis_id'', CStr (asc ''K1'')), (''crisis_name'', CStr (asc ''Corralito'')),
      (''start_date'', CStr (asc ''2001-12-03'')), (''end_date'', CStr (asc ''2002-12-02'')),
      (''crisis_type'', CStr (asc ''bancaria'')), (''severity_level'', CInt 5),
      (''legal_changes_count'', CInt 40), (''emergency_decrees'', CInt 12), (''new_laws'', CInt 7),
      (''acceleration_factor'', CFloat (5/2)), (''economic_indicators'', CNaN),
      (''recovery_timeline_months'', CInt 36),
      (''long_term_institutional_impact'', CStr (asc ''alto''))]"

section \<open>Properties of the rounding\<close>

lemma rhe_lower: "\<lfloor>t\<rfloor> \<le> rhe t"
  by (simp add: rhe_def Let_def)

lemma rhe_upper: "rhe t \<le> \<lfloor>t\<rfloor> + 1"
  by (simp add: rhe_def Let_def)

lemma rhe_of_int: "rhe (of_int n) = n"
  by (simp add: rhe_def Let_def)

lemma rhe_mono: assumes "t \<le> u" shows "rhe t \<le> rhe u"
proof (cases "\<lfloor>t\<rfloor> = \<lfloor>u\<rfloor>")
  case True
  with assms show ?thesis by (auto simp: rhe_def Let_def)
next
  case False
  with assms have "\<lfloor>t\<rfloor> + 1 \<le> \<lfloor>u\<rfloor>" using floor_mono[of t u] by linarith
  with rhe_upper[of t] rhe_lower[of u] show ?thesis by linarith
qed

lemma ilog2_ge1:
  assumes "1 \<le> x"
  shows "2 powi (ilog2 x) \<le> x \<and> x < 2 powi (ilog2 x + 1)"
proof -
  let ?n = "nat \<lfloor>x\<rfloor>"
  have n: "0 < ?n" using assms by simp
  from floorlog_bounds[OF n, of 2]
  have b: "2 ^ (floorlog 2 ?n - 1) \<le> ?n" "?n < 2 ^ floorlog 2 ?n" by simp_all
  have pos: "0 < floorlog 2 ?n" using n floorlog_eq_zero_iff[of 2 ?n] by auto
  have e: "ilog2 x = int (floorlog 2 ?n - 1)" using assms pos by (simp add: ilog2_def)
  have e1: "ilog2 x + 1 = int (floorlog 2 ?n)" using assms pos by (simp add: ilog2_def)
  have "(2::rat) ^ (floorlog 2 ?n - 1) \<le> of_nat ?n"
    using b(1) by (metis of_nat_le_iff of_nat_numeral of_nat_power)
  also have "of_nat ?n \<le> x" using assms by simp
  finally have lo: "2 powi (ilog2 x) \<le> x" unfolding e by (simp add: power_int_def)
  have "\<lfloor>x\<rfloor> < 2 ^ floorlog 2 ?n" using b(2) n by (simp add: nat_less_iff)
  then have "x < of_int (2 ^ floorlog 2 ?n)" by (simp add: floor_less_iff)
  then have hi: "x < 2 powi (ilog2 x + 1)" unfolding e1 by (simp add: power_int_def)
  from lo hi show ?thesis ..
qed


lemma ilog2_lt1:
  assumes "0 < x" "x < 1"
  shows "2 powi (ilog2 x) \<le> x \<and> x < 2 powi (ilog2 x + 1)"
proof -
  let ?m = "\<lceil>1 / x\<rceil>"
  let ?k = "floorlog 2 (nat (?m - 1))"
  have y: "1 < 1 / x" using assms by simp
  then have m2: "2 \<le> ?m" by (simp add: le_ceiling_iff)
  then have n: "0 < nat (?m - 1)" by simp
  from floorlog_bounds[OF n, of 2]
  have b: "2 ^ (?k - 1) \<le> nat (?m - 1)" "nat (?m - 1) < 2 ^ ?k" by simp_all
  have pos: "0 < ?k" using n floorlog_eq_zero_iff[of 2 "nat (?m - 1)"] by auto
  have e: "ilog2 x = - int ?k" using assms by (simp add: ilog2_def)
  have "?m \<le> 2 ^ ?k" using b(2) m2 by (simp add: nat_less_iff)
  then have "1 / x \<le> of_int (2 ^ ?k)" by (simp add: ceiling_le_iff)
  then have "1 / x \<le> 2 ^ ?k" by simp
  then have "1 \<le> 2 ^ ?k * x" using assms by (simp add: field_simps)
  then have lo: "2 powi (ilog2 x) \<le> x" unfolding e
    by (simp add: power_int_minus field_simps)
  have "(2::int) ^ (?k - 1) < ?m" using b(1) m2 by (simp add: le_nat_iff)
  then have "of_int (2 ^ (?k - 1)) < 1 / x" by (simp add: less_ceiling_iff)
  then have "2 ^ (?k - 1) < 1 / x" by simp
  then have "x * 2 ^ (?k - 1) < 1" using assms by (simp add: field_simps)
  moreover have "ilog2 x + 1 = - int (?k - 1)" using e pos by simp
  ultimately have hi: "x < 2 powi (ilog2 x + 1)"
    by (simp add: power_int_minus field_simps del: of_nat_diff)
  from lo hi show ?thesis ..
qed

lemma ilog2_bounds:
  "0 < x \<Longrightarrow> 2 powi (ilog2 x) \<le> x \<and> x < 2 powi (ilog2 x + 1)"
  using ilog2_ge1[of x] ilog2_lt1[of x] by (cases "1 \<le> x") auto

lemma ilog2_mono:
  assumes "0 < x" "x \<le> y"
  shows "ilog2 x \<le> ilog2 y"
proof -
  have "(2::rat) powi (ilog2 x) < 2 powi (ilog2 y + 1)"
    using ilog2_bounds[of x] ilog2_bounds[of y] assms by linarith
  moreover have "(2::rat) powi (ilog2 y + 1) \<le> 2 powi (ilog2 x)" if "ilog2 y + 1 \<le> ilog2 x"
    using that by (intro power_int_increasing) simp_all
  ultimately show ?thesis by fastforce
qed


lemma rnd_pos_eq:
  "0 < x \<Longrightarrow> rnd x = of_int (rhe (x * 2 powi (52 - ilog2 x))) / 2 powi (52 - ilog2 x)"
  by (simp add: rnd_def Let_def)

lemma rnd_scaled_bounds:
  assumes "0 < x"
  shows "2 ^ 52 \<le> rhe (x * 2 powi (52 - ilog2 x)) \<and> rhe (x * 2 powi (52 - ilog2 x)) \<le> 2 ^ 53"
proof -
  let ?s = "(2::rat) powi (52 - ilog2 x)"
  have s: "0 < ?s" by simp
  from ilog2_bounds[OF assms] have lo: "2 powi (ilog2 x) \<le> x" and hi: "x < 2 powi (ilog2 x + 1)"
    by simp_all
  have "2 powi (ilog2 x) * ?s \<le> x * ?s" using lo s by (simp add: mult_right_mono)
  moreover have "2 powi (ilog2 x) * ?s = (2::rat) powi 52"
    by (simp flip: power_int_add)
  ultimately have "of_int (2 ^ 52) \<le> x * ?s" by simp
  from rhe_mono[OF this] have A: "2 ^ 52 \<le> rhe (x * ?s)" by (simp only: rhe_of_int)
  have "x * ?s \<le> 2 powi (ilog2 x + 1) * ?s" using hi s by (simp add: mult_right_mono)
  moreover have "2 powi (ilog2 x + 1) * ?s = (2::rat) powi 53"
    by (simp flip: power_int_add)
  ultimately have "x * ?s \<le> of_int (2 ^ 53)" by simp
  from rhe_mono[OF this] have B: "rhe (x * ?s) \<le> 2 ^ 53" by (simp only: rhe_of_int)
  from A B show ?thesis ..
qed

lemma rnd_bounds:
  assumes "0 < x"
  shows "2 powi (ilog2 x) \<le> rnd x \<and> rnd x \<le> 2 powi (ilog2 x + 1)"
proof -
  let ?s = "(2::rat) powi (52 - ilog2 x)"
  let ?r = "rhe (x * ?s)"
  have s: "0 < ?s" by simp
  from rnd_scaled_bounds[OF assms] have A: "2 ^ 52 \<le> ?r" and B: "?r \<le> 2 ^ 53" by simp_all
  have "(2::rat) powi 52 \<le> of_int ?r" using A by (metis of_int_le_iff of_int_numeral of_int_power power_int_of_nat of_nat_numeral)
  then have "2 powi 52 / ?s \<le> of_int ?r / ?s" using s by (simp add: divide_right_mono)
  moreover have "(2::rat) powi 52 / ?s = 2 powi (ilog2 x)"
    by (simp add: power_int_diff)
  ultimately have lo: "2 powi (ilog2 x) \<le> rnd x" using assms by (simp add: rnd_pos_eq)
  have "of_int ?r \<le> (2::rat) powi 53" using B by (metis of_int_le_iff of_int_numeral of_int_power power_int_of_nat of_nat_numeral)
  then have "of_int ?r / ?s \<le> 2 powi 53 / ?s" using s by (simp add: divide_right_mono)
  moreover have "(2::rat) powi 53 / ?s = 2 powi (ilog2 x + 1)"
    by (simp add: power_int_diff power_int_add)
  ultimately have hi: "rnd x \<le> 2 powi (ilog2 x + 1)" using assms by (simp add: rnd_pos_eq)
  from lo hi show ?thesis ..
qed

lemma rnd_zero: "rnd 0 = 0"
  by (simp add: rnd_def)

lemma rnd_pos: "0 < x \<Longrightarrow> 0 < rnd x"
proof -
  assume "0 < x"
  from rnd_bounds[OF this] have "2 powi (ilog2 x) \<le> rnd x" ..
  moreover have "(0::rat) < 2 powi (ilog2 x)" by simp
  ultimately show ?thesis by linarith
qed

lemma rnd_nonneg: "0 \<le> x \<Longrightarrow> 0 \<le> rnd x"
  using rnd_pos[of x] by (cases "x = 0") (simp_all add: rnd_zero less_imp_le)

lemma rnd_mono_pos:
  assumes "0 < x" "x \<le> y"
  shows "rnd x \<le> rnd y"
proof (cases "ilog2 x = ilog2 y")
  case True
  let ?s = "(2::rat) powi (52 - ilog2 y)"
  have s: "0 < ?s" by simp
  have "x * ?s \<le> y * ?s" using assms s by (simp add: mult_right_mono)
  then have "rhe (x * ?s) \<le> rhe (y * ?s)" by (rule rhe_mono)
  then have "(of_int (rhe (x * ?s)) :: rat) / ?s \<le> of_int (rhe (y * ?s)) / ?s"
    using s by (simp add: divide_right_mono)
  then show ?thesis using assms True by (simp add: rnd_pos_eq)
next
  case False
  with ilog2_mono[OF assms] have "ilog2 x + 1 \<le> ilog2 y" by simp
  then have "(2::rat) powi (ilog2 x + 1) \<le> 2 powi (ilog2 y)"
    by (intro power_int_increasing) simp_all
  moreover have "rnd x \<le> 2 powi (ilog2 x + 1)" using rnd_bounds[of x] assms by simp
  moreover have "2 powi (ilog2 y) \<le> rnd y" using rnd_bounds[of y] assms by simp
  ultimately show ?thesis by linarith
qed

lemma rnd_mono: "0 \<le> x \<Longrightarrow> x \<le> y \<Longrightarrow> rnd x \<le> rnd y"
  using rnd_mono_pos[of x y] rnd_nonneg[of y] by (cases "x = 0") (simp_all add: rnd_zero)

lemma rnd_one: "rnd 1 = 1"
  by code_simp


lemma int_truediv_bounds:
  assumes "0 \<le> a" "a \<le> b" "0 < b"
  shows "0 \<le> int_truediv a b \<and> int_truediv a b \<le> 1"
proof -
  have q0: "(0::rat) \<le> of_int a / of_int b" using assms by simp
  have q1: "(of_int a :: rat) / of_int b \<le> 1" using assms by simp
  have "0 \<le> rnd (of_int a / of_int b)" using q0 by (rule rnd_nonneg)
  moreover have "rnd (of_int a / of_int b) \<le> rnd 1" using q0 q1 by (rule rnd_mono)
  ultimately show ?thesis by (simp add: int_truediv_def rnd_one)
qed

section \<open>Properties of the string operations\<close>

lemma startswith_iff: "startswith s k \<longleftrightarrow> (\<exists>ss. s = k @ ss)"
  by (induction s k rule: startswith.induct) auto

lemma contains_iff: "contains s k \<longleftrightarrow> (\<exists>ps ss. s = ps @ k @ ss)"
proof (induction s)
  case Nil
  show ?case by auto
next
  case (Cons c s)
  show ?case
  proof
    assume "contains (c # s) k"
    then consider "startswith (c # s) k" | "contains s k" by auto
    then show "\<exists>ps ss. c # s = ps @ k @ ss"
    proof cases
      case 1
      then obtain ss where "c # s = k @ ss" by (auto simp: startswith_iff)
      then have "c # s = [] @ k @ ss" by simp
      then show ?thesis by blast
    next
      case 2
      then obtain ps ss where "s = ps @ k @ ss" using Cons.IH by blast
      then have "c # s = (c # ps) @ k @ ss" by simp
      then show ?thesis by blast
    qed
  next
    assume "\<exists>ps ss. c # s = ps @ k @ ss"
    then obtain ps ss where e: "c # s = ps @ k @ ss" by blast
    show "contains (c # s) k"
    proof (cases ps)
      case Nil
      with e have "startswith (c # s) k" by (auto simp: startswith_iff)
      then show ?thesis by simp
    next
      case (Cons p ps')
      with e have "s = ps' @ k @ ss" by simp
      then have "contains s k" using Cons.IH by blast
      then show ?thesis by simp
    qed
  qed
qed

section \<open>The relevance score\<close>

text \<open>
  Claim C1. For every content and every keyword list, the relevance score lies between 0
  and 1; it is 0 for the empty keyword list, and otherwise it is the number of keywords
  of the list that occur as a substring of the lowercased content, divided (a float
  division, so rounded to the nearest double) by the number of keywords. A keyword counts
  once however often it occurs in the content.
\<close>

theorem relevance_score_ratio:
  "calculate_relevance_score content keywords =
     (if keywords = [] then 0
      else int_truediv
             (int (length (filter (\<lambda>k. \<exists>ps ss. lower content = ps @ k @ ss) keywords)))
             (int (length keywords)))
   \<and> 0 \<le> calculate_relevance_score content keywords
   \<and> calculate_relevance_score content keywords \<le> 1"
proof (cases "keywords = []")
  case True
  then show ?thesis by (simp add: calculate_relevance_score_def)
next
  case False
  let ?m = "length (filter (\<lambda>k. contains (lower content) k) keywords)"
  have eq: "calculate_relevance_score content keywords = int_truediv (int ?m) (int (length keywords))"
    using False by (simp add: calculate_relevance_score_def Let_def)
  have "?m \<le> length keywords" by (rule length_filter_le)
  then have "0 \<le> int_truediv (int ?m) (int (length keywords))
      \<and> int_truediv (int ?m) (int (length keywords)) \<le> 1"
    using False by (intro int_truediv_bounds) simp_all
  then show ?thesis using False eq by (simp add: contains_iff)
qed

text \<open>Two of three keywords occur in the content, one of them twice: the score is the
  double nearest to 2/3.\<close>

theorem relevance_score_ratio_witness:
  "calculate_relevance_score (asc ''Ley de Fideicomiso; fideicomiso'')
       [asc ''fideicomiso'', asc ''banco'', asc ''fideicomiso''] = 6004799503160661 / 9007199254740992
   \<and> 0 \<le> calculate_relevance_score (asc ''Ley de Fideicomiso; fideicomiso'')
       [asc ''fideicomiso'', asc ''banco'', asc ''fideicomiso'']
   \<and> calculate_relevance_score (asc ''Ley de Fideicomiso; fideicomiso'')
       [asc ''fideicomiso'', asc ''banco'', asc ''fideicomiso''] \<le> 1
   \<and> calculate_relevance_score (asc ''Ley'') [] = 0"
proof -
  have a: "calculate_relevance_score (asc ''Ley de Fideicomiso; fideicomiso'')
       [asc ''fideicomiso'', asc ''banco'', asc ''fideicomiso''] = 6004799503160661 / 9007199254740992"
    by code_simp
  have b: "calculate_relevance_score (asc ''Ley'') [] = 0"
    using relevance_score_ratio [of "asc ''Ley''" "[]"] by simp
  show ?thesis
    using a b relevance_score_ratio [of "asc ''Ley de Fideicomiso; fideicomiso''"
      "[asc ''fideicomiso'', asc ''banco'', asc ''fideicomiso'']"]
    by simp
qed

section \<open>Retrieval\<close>


lemma length_sort_reverse: "length (sort_reverse f xs) = length xs"
  by (simp add: sort_reverse_def)




lemma slice_to_take: "\<exists>n. slice_to xs k = take n xs"
  by (auto simp: slice_to_def)








section \<open>Confidence\<close>

lemma rnd_ge_fixed: "0 \<le> r \<Longrightarrow> rnd r = r \<Longrightarrow> r \<le> x \<Longrightarrow> r \<le> rnd x"
  using rnd_mono[of r x] by simp

lemma flit_six_tenths: "flit (3/5) = 5404319552844595 / 9007199254740992"
  by code_simp

lemma rnd_six_tenths_fixed: "rnd (flit (3/5)) = flit (3/5)"
  by code_simp

lemma flit_nonneg: "0 \<le> r \<Longrightarrow> 0 \<le> flit r"
  by (simp add: flit_def rnd_nonneg)

lemma fmul_nonneg: "0 \<le> x \<Longrightarrow> 0 \<le> y \<Longrightarrow> 0 \<le> fmul x y"
  by (simp add: fmul_def rnd_nonneg)

lemma fadd_nonneg: "0 \<le> x \<Longrightarrow> 0 \<le> y \<Longrightarrow> 0 \<le> fadd x y"
  by (simp add: fadd_def rnd_nonneg)

lemma fdiv_nonneg: "0 \<le> x \<Longrightarrow> 0 \<le> y \<Longrightarrow> 0 \<le> fdiv x y"
  by (simp add: fdiv_def rnd_nonneg)

lemma float_of_int_nonneg: "0 \<le> n \<Longrightarrow> 0 \<le> float_of_int n"
  by (simp add: float_of_int_def rnd_nonneg)

lemma foldl_fadd_nonneg: "0 \<le> a \<Longrightarrow> \<forall>x \<in> set xs. 0 \<le> x \<Longrightarrow> 0 \<le> foldl fadd a xs"
  by (induction xs arbitrary: a) (simp_all add: fadd_nonneg)

lemma py_sum_nonneg: "\<forall>x \<in> set xs. 0 \<le> x \<Longrightarrow> 0 \<le> py_sum xs"
  by (simp add: py_sum_def foldl_fadd_nonneg)

lemma fadd_ge_six_tenths: "flit (3/5) \<le> x \<Longrightarrow> 0 \<le> y \<Longrightarrow> flit (3/5) \<le> fadd x y"
  unfolding fadd_def
  by (rule rnd_ge_fixed) (simp_all add: flit_nonneg rnd_six_tenths_fixed)

lemma single_match_value:
  "min (fadd (fadd (fadd (flit (6/10)) (min (fmul (float_of_int 1) (flit (5/100))) (flit (3/10))))
                   (fmul (fdiv (py_sum [1]) (float_of_int 1)) (flit (2/10))))
             (flit (1/10)))
       (flit 1) = 8556839292003943 / 9007199254740992"
  by code_simp

lemma confidence_nonempty:
  "cases \<noteq> [] \<Longrightarrow>
     calculate_confidence cases keywords =
          min (fadd (fadd (fadd (flit (6/10))
                                (min (fmul (float_of_int (int (length cases))) (flit (5/100))) (flit (3/10))))
                          (fmul (fdiv (py_sum (map sc_score cases)) (float_of_int (int (length cases))))
                                (flit (2/10))))
                    (flit (1/10)))
              (flit 1)"
  by (simp add: calculate_confidence_def Let_def)

text \<open>
  Claim C3, as amended. The confidence of the empty match list is 0. For a match list that
  is not empty it is \<^verbatim>\<open>min(0.6 + min(n * 0.05, 0.3) + avg * 0.2 + 0.1, 1.0)\<close>, every
  operation being the float operation, with \<open>n\<close> the number of matches and \<open>avg\<close> their
  average score; when no score is negative, as retrieval guarantees, it lies between the
  double 0.6 and 1, so that the confidence is 0 only for the empty list. For a single
  match of score 1 it is the double 0.9500000000000001, one unit in the last place above
  the double nearest to 0.95.
\<close>

theorem confidence_value:
  "calculate_confidence [] keywords = 0
   \<and> (cases \<noteq> [] \<longrightarrow>
        calculate_confidence cases keywords =
          min (fadd (fadd (fadd (flit (6/10))
                                (min (fmul (float_of_int (int (length cases))) (flit (5/100))) (flit (3/10))))
                          (fmul (fdiv (py_sum (map sc_score cases)) (float_of_int (int (length cases))))
                                (flit (2/10))))
                    (flit (1/10)))
              (flit 1))
   \<and> (cases \<noteq> [] \<and> (\<forall>c \<in> set cases. 0 \<le> sc_score c) \<longrightarrow>
        flit (6/10) \<le> calculate_confidence cases keywords
        \<and> calculate_confidence cases keywords \<le> 1
        \<and> calculate_confidence cases keywords \<noteq> 0)
   \<and> (sc_score c = 1 \<longrightarrow> calculate_confidence [c] keywords = 8556839292003943 / 9007199254740992)"
proof -
  have A: "calculate_confidence [] keywords = 0" by (simp add: calculate_confidence_def)
  have B: "calculate_confidence cases keywords =
          min (fadd (fadd (fadd (flit (6/10))
                                (min (fmul (float_of_int (int (length cases))) (flit (5/100))) (flit (3/10))))
                          (fmul (fdiv (py_sum (map sc_score cases)) (float_of_int (int (length cases))))
                                (flit (2/10))))
                    (flit (1/10)))
              (flit 1)" if "cases \<noteq> []"
    using that by (rule confidence_nonempty)
  have C: "flit (6/10) \<le> calculate_confidence cases keywords
        \<and> calculate_confidence cases keywords \<le> 1
        \<and> calculate_confidence cases keywords \<noteq> 0"
    if ne: "cases \<noteq> []" and nn: "\<forall>c \<in> set cases. 0 \<le> sc_score c"
  proof -
    let ?n = "float_of_int (int (length cases))"
    let ?boost = "min (fmul ?n (flit (1/20))) (flit (3/10))"
    let ?sb = "fmul (fdiv (py_sum (map sc_score cases)) ?n) (flit (1/5))"
    have n0: "0 \<le> ?n" by (simp add: float_of_int_nonneg)
    have boost0: "0 \<le> ?boost" using n0 by (simp add: fmul_nonneg flit_nonneg)
    have "0 \<le> py_sum (map sc_score cases)" using nn by (intro py_sum_nonneg) auto
    then have sb0: "0 \<le> ?sb" using n0 by (simp add: fmul_nonneg fdiv_nonneg flit_nonneg)
    have one: "flit 1 = 1" by (simp add: flit_def rnd_one)
    have six1: "flit (3/5) \<le> 1" by (simp add: flit_six_tenths)
    have six0: "0 < flit (3/5)" by (simp add: flit_six_tenths)
    have b1: "flit (3/5) \<le> fadd (flit (3/5)) ?boost"
      using boost0 by (intro fadd_ge_six_tenths) simp_all
    have b2: "flit (3/5) \<le> fadd (fadd (flit (3/5)) ?boost) ?sb"
      using b1 sb0 by (rule fadd_ge_six_tenths)
    have b3: "flit (3/5) \<le> fadd (fadd (fadd (flit (3/5)) ?boost) ?sb) (flit (1/10))"
      using b2 by (rule fadd_ge_six_tenths) (simp add: flit_nonneg)
    have lo: "flit (3/5) \<le> calculate_confidence cases keywords"
      using b3 six1 by (simp add: B[OF ne] one)
    have hi: "calculate_confidence cases keywords \<le> 1"
      by (simp add: B[OF ne] one)
    from lo hi six0 show ?thesis by auto
  qed
  have D: "calculate_confidence [c] keywords = 8556839292003943 / 9007199254740992"
    if "sc_score c = 1"
  proof -
    have e: "calculate_confidence [c] keywords =
          min (fadd (fadd (fadd (flit (6/10))
                                (min (fmul (float_of_int (int (length [c]))) (flit (5/100))) (flit (3/10))))
                          (fmul (fdiv (py_sum (map sc_score [c])) (float_of_int (int (length [c]))))
                                (flit (2/10))))
                    (flit (1/10)))
              (flit 1)"
      by (rule confidence_nonempty) simp
    have l: "int (length [c]) = 1" by simp
    have m: "map sc_score [c] = [1]" using that by simp
    show ?thesis by (simp only: e l m single_match_value)
  qed
  from A B C D show ?thesis by blast
qed

text \<open>Two matches of scores 1 and 0.5, and the single match of the scenario.\<close>

theorem confidence_value_witness:
  "[example_match, example_match \<lparr> sc_score := 1/2 \<rparr>] \<noteq> []
   \<and> 0 \<le> sc_score example_match
   \<and> 0 \<le> sc_score (example_match \<lparr> sc_score := 1/2 \<rparr>)
   \<and> sc_score example_match = 1
   \<and> flit (6/10) \<le> calculate_confidence [example_match, example_match \<lparr> sc_score := 1/2 \<rparr>] []
   \<and> calculate_confidence [example_match, example_match \<lparr> sc_score := 1/2 \<rparr>] [] \<le> 1
   \<and> calculate_confidence [example_match] [asc ''fideicomiso''] = 8556839292003943 / 9007199254740992"
proof -
  let ?two = "[example_match, example_match \<lparr> sc_score := 1/2 \<rparr>]"
  have a: "?two \<noteq> []" by simp
  have b: "\<forall>c \<in> set ?two. 0 \<le> sc_score c"
    by (simp add: example_match_def)
  have c: "sc_score example_match = 1" by (simp add: example_match_def)
  note T = confidence_value [of "[]" ?two example_match]
  note U = confidence_value [of "[asc ''fideicomiso'']" "[example_match]" example_match]
  from T a b have d: "flit (6/10) \<le> calculate_confidence ?two []
      \<and> calculate_confidence ?two [] \<le> 1" by blast
  from U c have e: "calculate_confidence [example_match] [asc ''fideicomiso'']
      = 8556839292003943 / 9007199254740992" by blast
  have b1: "0 \<le> sc_score example_match" by (simp add: example_match_def)
  have b2: "0 \<le> sc_score (example_match \<lparr> sc_score := 1/2 \<rparr>)" by simp
  from a b1 b2 c d e show ?thesis by blast
qed

text \<open>
  The claim as stated fails in its last part: the float sum \<^verbatim>\<open>0.6 + 0.05 + 0.2 + 0.1\<close>
  is neither the double nearest to 0.95 (what the literal \<^verbatim>\<open>0.95\<close> denotes) nor the
  rational 95/100.
\<close>

theorem confidence_single_match_not_095:
  "calculate_confidence [example_match] [asc ''fideicomiso''] \<noteq> flit (95/100)
   \<and> calculate_confidence [example_match] [asc ''fideicomiso''] \<noteq> 95/100"
  by code_simp

section \<open>Building the index\<close>

lemma keys_dict_set: "fst ` set (dict_set k v d) = insert k (fst ` set d)"
  by (induction d) auto

lemma dd_append_upper: "set (dd_append d k v k') \<subseteq> insert v (set (d k'))"
  by (auto simp: dd_append_def)

lemma dd_append_lower: "set (d k') \<subseteq> set (dd_append d k v k')"
  by (auto simp: dd_append_def)

lemma dd_append_member: "v \<in> set (dd_append d k v k)"
  by (simp add: dd_append_def)

lemma index_keywords_upper:
  "set (index_keywords kws cid d k) \<subseteq> insert cid (set (d k))"
proof (induction kws arbitrary: d)
  case Nil
  show ?case by (auto simp: index_keywords_def)
next
  case (Cons w ws)
  have "set (index_keywords (w # ws) cid d k) = set (index_keywords ws cid (dd_append d (lower w) cid) k)"
    by (simp add: index_keywords_def)
  also have "\<dots> \<subseteq> insert cid (set (dd_append d (lower w) cid k))" by (rule Cons.IH)
  also have "\<dots> \<subseteq> insert cid (set (d k))" using dd_append_upper[of d "lower w" cid k] by auto
  finally show ?case .
qed

lemma index_keywords_lower:
  "set (d k) \<subseteq> set (index_keywords kws cid d k)"
proof (induction kws arbitrary: d)
  case Nil
  show ?case by (simp add: index_keywords_def)
next
  case (Cons w ws)
  have "set (d k) \<subseteq> set (dd_append d (lower w) cid k)" by (rule dd_append_lower)
  also have "\<dots> \<subseteq> set (index_keywords ws cid (dd_append d (lower w) cid) k)" by (rule Cons.IH)
  also have "\<dots> = set (index_keywords (w # ws) cid d k)" by (simp add: index_keywords_def)
  finally show ?case .
qed

lemma index_case_unfold:
  assumes "index_case rt idx row = Inr idx'"
  shows "\<exists>case_id entry area start kws.
      getitem row ''case_id'' = Inr case_id
    \<and> getitem row ''area_derecho'' = Inr area
    \<and> getitem row ''fecha_inicio'' = Inr start
    \<and> idx' = idx \<lparr> idx_evolution_cases := dict_set case_id entry (idx_evolution_cases idx),
                     idx_keywords := index_keywords kws case_id (idx_keywords idx),
                     idx_temporal := dd_append (idx_temporal idx) (take 4 (py_str rt start)) case_id,
                     idx_legal_areas := dd_append (idx_legal_areas idx) area case_id \<rparr>"
  using assms
  by (simp add: index_case_def Let_def split: sum.splits) blast

lemma index_case_Inr:
  assumes "index_case rt idx row = Inr idx'"
  shows "\<exists>case_id area start.
      getitem row ''case_id'' = Inr case_id
    \<and> getitem row ''area_derecho'' = Inr area
    \<and> getitem row ''fecha_inicio'' = Inr start
    \<and> fst ` set (idx_evolution_cases idx') = insert case_id (fst ` set (idx_evolution_cases idx))
    \<and> idx_crisis_periods idx' = idx_crisis_periods idx
    \<and> idx_temporal idx' = dd_append (idx_temporal idx) (take 4 (py_str rt start)) case_id
    \<and> idx_legal_areas idx' = dd_append (idx_legal_areas idx) area case_id
    \<and> (\<forall>k. set (idx_keywords idx' k) \<subseteq> insert case_id (set (idx_keywords idx k)))
    \<and> (\<forall>k. set (idx_keywords idx k) \<subseteq> set (idx_keywords idx' k))"
proof -
  from index_case_unfold[OF assms] obtain case_id entry area start kws where
    g: "getitem row ''case_id'' = Inr case_id" "getitem row ''area_derecho'' = Inr area"
       "getitem row ''fecha_inicio'' = Inr start"
    and e: "idx' = idx \<lparr> idx_evolution_cases := dict_set case_id entry (idx_evolution_cases idx),
                     idx_keywords := index_keywords kws case_id (idx_keywords idx),
                     idx_temporal := dd_append (idx_temporal idx) (take 4 (py_str rt start)) case_id,
                     idx_legal_areas := dd_append (idx_legal_areas idx) area case_id \<rparr>"
    by blast
  have k: "fst ` set (idx_evolution_cases idx') = insert case_id (fst ` set (idx_evolution_cases idx))"
    by (simp add: e keys_dict_set)
  have c: "idx_crisis_periods idx' = idx_crisis_periods idx" by (simp add: e)
  have t: "idx_temporal idx' = dd_append (idx_temporal idx) (take 4 (py_str rt start)) case_id"
    by (simp add: e)
  have l: "idx_legal_areas idx' = dd_append (idx_legal_areas idx) area case_id" by (simp add: e)
  have u: "\<forall>k. set (idx_keywords idx' k) \<subseteq> insert case_id (set (idx_keywords idx k))"
    by (simp add: e index_keywords_upper)
  have w: "\<forall>k. set (idx_keywords idx k) \<subseteq> set (idx_keywords idx' k)"
    by (simp add: e index_keywords_lower)
  from g k c t l u w show ?thesis by blast
qed

lemma index_crisis_Inr:
  assumes "index_crisis rt idx row = Inr idx'"
  shows "\<exists>crisis_id.
      getitem row ''crisis_id'' = Inr crisis_id
    \<and> fst ` set (idx_crisis_periods idx') = insert crisis_id (fst ` set (idx_crisis_periods idx))
    \<and> idx_evolution_cases idx' = idx_evolution_cases idx
    \<and> idx_temporal idx' = idx_temporal idx
    \<and> idx_legal_areas idx' = idx_legal_areas idx
    \<and> idx_keywords idx' = idx_keywords idx"
proof -
  from assms have "\<exists>crisis_id entry. getitem row ''crisis_id'' = Inr crisis_id
      \<and> idx' = idx \<lparr> idx_crisis_periods := dict_set crisis_id entry (idx_crisis_periods idx) \<rparr>"
    by (simp add: index_crisis_def Let_def split: sum.splits) blast
  then obtain crisis_id entry where g: "getitem row ''crisis_id'' = Inr crisis_id"
    and e: "idx' = idx \<lparr> idx_crisis_periods := dict_set crisis_id entry (idx_crisis_periods idx) \<rparr>"
    by blast
  show ?thesis using g by (simp add: e keys_dict_set)
qed


lemma index_cases_keys:
  "index_cases rt idx rows = Inr idx' \<Longrightarrow>
     fst ` set (idx_evolution_cases idx')
       = fst ` set (idx_evolution_cases idx) \<union> {v. \<exists>row \<in> set rows. getitem row ''case_id'' = Inr v}
     \<and> idx_crisis_periods idx' = idx_crisis_periods idx"
proof (induction rows arbitrary: idx)
  case Nil
  then show ?case by simp
next
  case (Cons row rows)
  from Cons.prems obtain idx1 where s1: "index_case rt idx row = Inr idx1"
    and s2: "index_cases rt idx1 rows = Inr idx'"
    by (auto split: sum.splits)
  from index_case_Inr[OF s1] obtain case_id where
    g: "getitem row ''case_id'' = Inr case_id"
    and k: "fst ` set (idx_evolution_cases idx1) = insert case_id (fst ` set (idx_evolution_cases idx))"
    and c: "idx_crisis_periods idx1 = idx_crisis_periods idx"
    by blast
  from Cons.IH[OF s2] have
    k': "fst ` set (idx_evolution_cases idx')
       = fst ` set (idx_evolution_cases idx1) \<union> {v. \<exists>row \<in> set rows. getitem row ''case_id'' = Inr v}"
    and c': "idx_crisis_periods idx' = idx_crisis_periods idx1"
    by simp_all
  have "{v. \<exists>r \<in> set (row # rows). getitem r ''case_id'' = Inr v}
      = insert case_id {v. \<exists>r \<in> set rows. getitem r ''case_id'' = Inr v}"
    using g by auto
  with k k' c c' show ?case by auto
qed

lemma index_cases_secondary:
  "index_cases rt idx rows = Inr idx' \<Longrightarrow>
     (\<forall>k. set (idx_keywords idx k) \<subseteq> set (idx_keywords idx' k)
          \<and> set (idx_keywords idx' k) \<subseteq> set (idx_keywords idx k) \<union> fst ` set (idx_evolution_cases idx'))
   \<and> (\<forall>k. set (idx_temporal idx k) \<subseteq> set (idx_temporal idx' k)
          \<and> set (idx_temporal idx' k) \<subseteq> set (idx_temporal idx k) \<union> fst ` set (idx_evolution_cases idx'))
   \<and> (\<forall>k. set (idx_legal_areas idx k) \<subseteq> set (idx_legal_areas idx' k)
          \<and> set (idx_legal_areas idx' k) \<subseteq> set (idx_legal_areas idx k) \<union> fst ` set (idx_evolution_cases idx'))"
proof (induction rows arbitrary: idx)
  case Nil
  then show ?case by simp
next
  case (Cons row rows)
  from Cons.prems obtain idx1 where s1: "index_case rt idx row = Inr idx1"
    and s2: "index_cases rt idx1 rows = Inr idx'"
    by (auto split: sum.splits)
  from index_case_Inr[OF s1] obtain case_id area start where
    k: "fst ` set (idx_evolution_cases idx1) = insert case_id (fst ` set (idx_evolution_cases idx))"
    and t: "idx_temporal idx1 = dd_append (idx_temporal idx) (take 4 (py_str rt start)) case_id"
    and l: "idx_legal_areas idx1 = dd_append (idx_legal_areas idx) area case_id"
    and u: "\<forall>k. set (idx_keywords idx1 k) \<subseteq> insert case_id (set (idx_keywords idx k))"
    and w: "\<forall>k. set (idx_keywords idx k) \<subseteq> set (idx_keywords idx1 k)"
    by blast
  have sub: "fst ` set (idx_evolution_cases idx1) \<subseteq> fst ` set (idx_evolution_cases idx')"
    using index_cases_keys[OF s2] by auto
  have cid: "case_id \<in> fst ` set (idx_evolution_cases idx')" using k sub by auto
  note IH = Cons.IH[OF s2]
  have A: "set (idx_keywords idx k) \<subseteq> set (idx_keywords idx' k)
          \<and> set (idx_keywords idx' k) \<subseteq> set (idx_keywords idx k) \<union> fst ` set (idx_evolution_cases idx')" for k
    using IH u w cid by blast
  have t1: "set (idx_temporal idx k) \<subseteq> set (idx_temporal idx1 k)
      \<and> set (idx_temporal idx1 k) \<subseteq> insert case_id (set (idx_temporal idx k))" for k
    unfolding t using dd_append_lower dd_append_upper by fast
  have B: "set (idx_temporal idx k) \<subseteq> set (idx_temporal idx' k)
          \<and> set (idx_temporal idx' k) \<subseteq> set (idx_temporal idx k) \<union> fst ` set (idx_evolution_cases idx')" for k
    using IH t1[of k] cid by blast
  have l1: "set (idx_legal_areas idx k) \<subseteq> set (idx_legal_areas idx1 k)
      \<and> set (idx_legal_areas idx1 k) \<subseteq> insert case_id (set (idx_legal_areas idx k))" for k
    unfolding l using dd_append_lower dd_append_upper by fast
  have C: "set (idx_legal_areas idx k) \<subseteq> set (idx_legal_areas idx' k)
          \<and> set (idx_legal_areas idx' k) \<subseteq> set (idx_legal_areas idx k) \<union> fst ` set (idx_evolution_cases idx')" for k
    using IH l1[of k] cid by blast
  from A B C show ?case by blast
qed

lemma index_cases_rows:
  "index_cases rt idx rows = Inr idx' \<Longrightarrow> row \<in> set rows \<Longrightarrow>
     \<exists>case_id area start.
        getitem row ''case_id'' = Inr case_id
      \<and> getitem row ''area_derecho'' = Inr area
      \<and> getitem row ''fecha_inicio'' = Inr start
      \<and> case_id \<in> set (idx_temporal idx' (take 4 (py_str rt start)))
      \<and> case_id \<in> set (idx_legal_areas idx' area)"
proof (induction rows arbitrary: idx)
  case Nil
  then show ?case by simp
next
  case (Cons r rows)
  from Cons.prems(1) obtain idx1 where s1: "index_case rt idx r = Inr idx1"
    and s2: "index_cases rt idx1 rows = Inr idx'"
    by (auto split: sum.splits)
  show ?case
  proof (cases "row = r")
    case True
    from index_case_Inr[OF s1] obtain case_id area start where
      g: "getitem r ''case_id'' = Inr case_id" "getitem r ''area_derecho'' = Inr area"
         "getitem r ''fecha_inicio'' = Inr start"
      and t: "idx_temporal idx1 = dd_append (idx_temporal idx) (take 4 (py_str rt start)) case_id"
      and l: "idx_legal_areas idx1 = dd_append (idx_legal_areas idx) area case_id"
      by blast
    have "case_id \<in> set (idx_temporal idx1 (take 4 (py_str rt start)))"
      unfolding t by (rule dd_append_member)
    then have a: "case_id \<in> set (idx_temporal idx' (take 4 (py_str rt start)))"
      using index_cases_secondary[OF s2] by blast
    have "case_id \<in> set (idx_legal_areas idx1 area)"
      unfolding l by (rule dd_append_member)
    then have b: "case_id \<in> set (idx_legal_areas idx' area)"
      using index_cases_secondary[OF s2] by blast
    from g a b True show ?thesis by blast
  next
    case False
    with Cons.prems(2) have "row \<in> set rows" by simp
    from Cons.IH[OF s2 this] show ?thesis .
  qed
qed

lemma index_crises_Inr:
  "index_crises rt idx rows = Inr idx' \<Longrightarrow>
     fst ` set (idx_crisis_periods idx')
       = fst ` set (idx_crisis_periods idx) \<union> {v. \<exists>row \<in> set rows. getitem row ''crisis_id'' = Inr v}
     \<and> idx_evolution_cases idx' = idx_evolution_cases idx
     \<and> idx_temporal idx' = idx_temporal idx
     \<and> idx_legal_areas idx' = idx_legal_areas idx
     \<and> idx_keywords idx' = idx_keywords idx"
proof (induction rows arbitrary: idx)
  case Nil
  then show ?case by simp
next
  case (Cons row rows)
  from Cons.prems obtain idx1 where s1: "index_crisis rt idx row = Inr idx1"
    and s2: "index_crises rt idx1 rows = Inr idx'"
    by (auto split: sum.splits)
  from index_crisis_Inr[OF s1] obtain crisis_id where
    g: "getitem row ''crisis_id'' = Inr crisis_id"
    and k: "fst ` set (idx_crisis_periods idx1) = insert crisis_id (fst ` set (idx_crisis_periods idx))"
    and o: "idx_evolution_cases idx1 = idx_evolution_cases idx" "idx_temporal idx1 = idx_temporal idx"
       "idx_legal_areas idx1 = idx_legal_areas idx" "idx_keywords idx1 = idx_keywords idx"
    by blast
  have "{v. \<exists>r \<in> set (row # rows). getitem r ''crisis_id'' = Inr v}
      = insert crisis_id {v. \<exists>r \<in> set rows. getitem r ''crisis_id'' = Inr v}"
    using g by auto
  with Cons.IH[OF s2] k o show ?case by auto
qed

lemma build_memory_index_stages:
  "build_memory_index rt evolution_cases crisis_periods =
     (case index_cases rt empty_index evolution_cases of
        Inl e \<Rightarrow> Inl e
      | Inr idx1 \<Rightarrow>
          (case index_crises rt idx1 crisis_periods of
             Inl e \<Rightarrow> Inl e
           | Inr idx \<Rightarrow>
               (case py_print rt (index_built_line idx) of
                  Inl e \<Rightarrow> Inl e
                | Inr u \<Rightarrow> Inr idx)))"
proof -
  have a: "(if \<not> df_empty evolution_cases then index_cases rt empty_index evolution_cases
            else Inr empty_index) = index_cases rt empty_index evolution_cases"
    by (cases evolution_cases) (simp_all add: df_empty_def)
  have b: "(if \<not> df_empty crisis_periods then index_crises rt i crisis_periods else Inr i)
      = index_crises rt i crisis_periods" for i
    by (cases crisis_periods) (simp_all add: df_empty_def)
  show ?thesis unfolding build_memory_index_def a b ..
qed

lemma build_memory_index_Inr:
  assumes "build_memory_index rt evolution_cases crisis_periods = Inr idx"
  shows "\<exists>idx1. index_cases rt empty_index evolution_cases = Inr idx1
           \<and> index_crises rt idx1 crisis_periods = Inr idx"
  using assms unfolding build_memory_index_stages by (auto split: sum.splits)

lemma index_crises_rows:
  "index_crises rt idx rows = Inr idx' \<Longrightarrow> row \<in> set rows \<Longrightarrow>
     \<exists>crisis_id. getitem row ''crisis_id'' = Inr crisis_id"
proof (induction rows arbitrary: idx)
  case Nil
  then show ?case by simp
next
  case (Cons r rows)
  from Cons.prems(1) obtain idx1 where s1: "index_crisis rt idx r = Inr idx1"
    and s2: "index_crises rt idx1 rows = Inr idx'"
    by (auto split: sum.splits)
  show ?case
  proof (cases "row = r")
    case True
    with index_crisis_Inr[OF s1] show ?thesis by blast
  next
    case False
    with Cons.prems(2) have "row \<in> set rows" by simp
    from Cons.IH[OF s2 this] show ?thesis .
  qed
qed

lemma example_build:
  "\<exists>idx. build_memory_index runtime_fifo
            [example_case (CStr (asc ''C1'')) (CStr (asc ''1995-01-01''))] [example_crisis] = Inr idx
         \<and> map fst (idx_evolution_cases idx) = [CStr (asc ''C1'')]
         \<and> map fst (idx_crisis_periods idx) = [CStr (asc ''K1'')]
         \<and> idx_keywords idx (asc ''fideicomiso'') = [CStr (asc ''C1'')]
         \<and> idx_temporal idx (asc ''1995'') = [CStr (asc ''C1'')]
         \<and> idx_legal_areas idx (CStr (asc ''civil'')) = [CStr (asc ''C1'')]"
proof -
  have "case build_memory_index runtime_fifo
            [example_case (CStr (asc ''C1'')) (CStr (asc ''1995-01-01''))] [example_crisis] of
          Inl e \<Rightarrow> False
        | Inr idx \<Rightarrow> map fst (idx_evolution_cases idx) = [CStr (asc ''C1'')]
         \<and> map fst (idx_crisis_periods idx) = [CStr (asc ''K1'')]
         \<and> idx_keywords idx (asc ''fideicomiso'') = [CStr (asc ''C1'')]
         \<and> idx_temporal idx (asc ''1995'') = [CStr (asc ''C1'')]
         \<and> idx_legal_areas idx (CStr (asc ''civil'')) = [CStr (asc ''C1'')]"
    by code_simp
  then show ?thesis by (auto split: sum.splits)
qed

text \<open>
  Claim C5, as amended. The build skips no record. When it succeeds, the keys of the store
  of evolution cases are exactly the identifiers of the input rows, and those of the store
  of crisis periods the identifiers of the crisis rows; an identifier that is missing
  (\<^verbatim>\<open>NaN\<close>) is a key like any other. Every evolution case is listed in the legal-area
  index under its area. The build succeeds only if every row has the identifier column: a
  row without it raises \<^verbatim>\<open>KeyError\<close>, which nothing catches.
\<close>

theorem build_indexes_every_record:
  assumes "build_memory_index rt evolution_cases crisis_periods = Inr idx"
  shows "fst ` set (idx_evolution_cases idx)
           = {v. \<exists>row \<in> set evolution_cases. getitem row ''case_id'' = Inr v}
       \<and> fst ` set (idx_crisis_periods idx)
           = {v. \<exists>row \<in> set crisis_periods. getitem row ''crisis_id'' = Inr v}
       \<and> (\<forall>row \<in> set evolution_cases.
             \<exists>case_id area. getitem row ''case_id'' = Inr case_id
                \<and> getitem row ''area_derecho'' = Inr area
                \<and> case_id \<in> fst ` set (idx_evolution_cases idx)
                \<and> case_id \<in> set (idx_legal_areas idx area))
       \<and> (\<forall>row \<in> set crisis_periods.
             \<exists>crisis_id. getitem row ''crisis_id'' = Inr crisis_id
                \<and> crisis_id \<in> fst ` set (idx_crisis_periods idx))"
proof -
  from build_memory_index_Inr[OF assms] obtain idx1 where
    s1: "index_cases rt empty_index evolution_cases = Inr idx1"
    and s2: "index_crises rt idx1 crisis_periods = Inr idx"
    by blast
  from index_crises_Inr[OF s2] have
    ck: "fst ` set (idx_crisis_periods idx)
       = fst ` set (idx_crisis_periods idx1) \<union> {v. \<exists>row \<in> set crisis_periods. getitem row ''crisis_id'' = Inr v}"
    and same: "idx_evolution_cases idx = idx_evolution_cases idx1"
      "idx_legal_areas idx = idx_legal_areas idx1"
    by simp_all
  from index_cases_keys[OF s1] have
    ek: "fst ` set (idx_evolution_cases idx1)
       = {v. \<exists>row \<in> set evolution_cases. getitem row ''case_id'' = Inr v}"
    and c0: "idx_crisis_periods idx1 = []"
    by (simp_all add: empty_index_def)
  have A: "fst ` set (idx_evolution_cases idx)
           = {v. \<exists>row \<in> set evolution_cases. getitem row ''case_id'' = Inr v}"
    using ek same by simp
  have B: "fst ` set (idx_crisis_periods idx)
           = {v. \<exists>row \<in> set crisis_periods. getitem row ''crisis_id'' = Inr v}"
    using ck c0 by simp
  have C: "\<exists>case_id area. getitem row ''case_id'' = Inr case_id
                \<and> getitem row ''area_derecho'' = Inr area
                \<and> case_id \<in> fst ` set (idx_evolution_cases idx)
                \<and> case_id \<in> set (idx_legal_areas idx area)"
    if r: "row \<in> set evolution_cases" for row
  proof -
    from index_cases_rows[OF s1 r] obtain case_id area where
      g: "getitem row ''case_id'' = Inr case_id" "getitem row ''area_derecho'' = Inr area"
      and l: "case_id \<in> set (idx_legal_areas idx1 area)"
      by blast
    have "case_id \<in> {v. \<exists>row \<in> set evolution_cases. getitem row ''case_id'' = Inr v}"
      using g r by auto
    then have "case_id \<in> fst ` set (idx_evolution_cases idx)" by (simp only: A)
    with g l same show ?thesis by (intro exI[of _ case_id] exI[of _ area]) simp
  qed
  have D: "\<exists>crisis_id. getitem row ''crisis_id'' = Inr crisis_id
                \<and> crisis_id \<in> fst ` set (idx_crisis_periods idx)"
    if r: "row \<in> set crisis_periods" for row
  proof -
    from index_crises_rows[OF s2 r] obtain crisis_id where
      g: "getitem row ''crisis_id'' = Inr crisis_id" by blast
    have "crisis_id \<in> {v. \<exists>row \<in> set crisis_periods. getitem row ''crisis_id'' = Inr v}"
      using g r by auto
    then have "crisis_id \<in> fst ` set (idx_crisis_periods idx)" by (simp only: B)
    with g show ?thesis by (intro exI[of _ crisis_id]) simp
  qed
  show ?thesis
  proof (intro conjI ballI)
    show "fst ` set (idx_evolution_cases idx)
           = {v. \<exists>row \<in> set evolution_cases. getitem row ''case_id'' = Inr v}"
      by (rule A)
    show "fst ` set (idx_crisis_periods idx)
           = {v. \<exists>row \<in> set crisis_periods. getitem row ''crisis_id'' = Inr v}"
      by (rule B)
  next
    fix row assume "row \<in> set evolution_cases"
    then show "\<exists>case_id area. getitem row ''case_id'' = Inr case_id
                \<and> getitem row ''area_derecho'' = Inr area
                \<and> case_id \<in> fst ` set (idx_evolution_cases idx)
                \<and> case_id \<in> set (idx_legal_areas idx area)"
      by (rule C)
  next
    fix row assume "row \<in> set crisis_periods"
    then show "\<exists>crisis_id. getitem row ''crisis_id'' = Inr crisis_id
                \<and> crisis_id \<in> fst ` set (idx_crisis_periods idx)"
      by (rule D)
  qed
qed

text \<open>Two evolution cases and one crisis period.\<close>

theorem build_indexes_every_record_witness:
  "\<exists>idx. build_memory_index runtime_fifo
            [example_case (CStr (asc ''C1'')) (CStr (asc ''1995-01-01'')),
             example_case (CStr (asc ''C2'')) (CStr (asc ''2001-12-03''))] [example_crisis] = Inr idx
         \<and> map fst (idx_evolution_cases idx) = [CStr (asc ''C1''), CStr (asc ''C2'')]
         \<and> fst ` set (idx_evolution_cases idx)
             = {v. \<exists>row \<in> set [example_case (CStr (asc ''C1'')) (CStr (asc ''1995-01-01'')),
                                    example_case (CStr (asc ''C2'')) (CStr (asc ''2001-12-03''))].
                      getitem row ''case_id'' = Inr v}
         \<and> fst ` set (idx_crisis_periods idx)
             = {v. \<exists>row \<in> set [example_crisis]. getitem row ''crisis_id'' = Inr v}"
proof -
  have "case build_memory_index runtime_fifo
            [example_case (CStr (asc ''C1'')) (CStr (asc ''1995-01-01'')),
             example_case (CStr (asc ''C2'')) (CStr (asc ''2001-12-03''))] [example_crisis] of
          Inl e \<Rightarrow> False
        | Inr idx \<Rightarrow> map fst (idx_evolution_cases idx) = [CStr (asc ''C1''), CStr (asc ''C2'')]"
    by code_simp
  then obtain idx where
    b: "build_memory_index runtime_fifo
            [example_case (CStr (asc ''C1'')) (CStr (asc ''1995-01-01'')),
             example_case (CStr (asc ''C2'')) (CStr (asc ''2001-12-03''))] [example_crisis] = Inr idx"
    and k: "map fst (idx_evolution_cases idx) = [CStr (asc ''C1''), CStr (asc ''C2'')]"
    by (auto split: sum.splits)
  note T = build_indexes_every_record [OF b]
  from T have A: "fst ` set (idx_evolution_cases idx)
             = {v. \<exists>row \<in> set [example_case (CStr (asc ''C1'')) (CStr (asc ''1995-01-01'')),
                                    example_case (CStr (asc ''C2'')) (CStr (asc ''2001-12-03''))].
                      getitem row ''case_id'' = Inr v}"
    by (rule conjunct1)
  from T have B: "fst ` set (idx_crisis_periods idx)
             = {v. \<exists>row \<in> set [example_crisis]. getitem row ''crisis_id'' = Inr v}"
    by (rule conjunct1[OF conjunct2])
  show ?thesis using b k A B by (intro exI[of _ idx] conjI)
qed

text \<open>
  The claim as stated fails: a single evolution case whose identifier is missing is neither
  skipped nor leaves the store smaller than the input; \<^verbatim>\<open>NaN\<close> becomes the key of the
  store and the entry of the keyword, year and legal-area indexes.
\<close>

theorem missing_id_is_indexed:
  "\<exists>idx. build_memory_index runtime_fifo [example_case CNaN (CStr (asc ''1995-01-01''))] [] = Inr idx
         \<and> map fst (idx_evolution_cases idx) = [CNaN]
         \<and> length (idx_evolution_cases idx) = length [example_case CNaN (CStr (asc ''1995-01-01''))]
         \<and> idx_keywords idx (asc ''fideicomiso'') = [CNaN]
         \<and> idx_temporal idx (asc ''1995'') = [CNaN]
         \<and> idx_legal_areas idx (CStr (asc ''civil'')) = [CNaN]"
proof -
  have "case build_memory_index runtime_fifo [example_case CNaN (CStr (asc ''1995-01-01''))] [] of
          Inl e \<Rightarrow> False
        | Inr idx \<Rightarrow> map fst (idx_evolution_cases idx) = [CNaN]
         \<and> length (idx_evolution_cases idx) = length [example_case CNaN (CStr (asc ''1995-01-01''))]
         \<and> idx_keywords idx (asc ''fideicomiso'') = [CNaN]
         \<and> idx_temporal idx (asc ''1995'') = [CNaN]
         \<and> idx_legal_areas idx (CStr (asc ''civil'')) = [CNaN]"
    by code_simp
  then show ?thesis by (auto split: sum.splits)
qed

text \<open>
  Claim C6. After the index is built, every identifier listed in the keyword index, in the
  year index or in the legal-area index is a key of the store of evolution cases, which is
  the part of the by-id store these indexes are filled from.
\<close>

theorem secondary_indexes_refer_to_store:
  assumes "build_memory_index rt evolution_cases crisis_periods = Inr idx"
  shows "set (idx_keywords idx keyword) \<subseteq> fst ` set (idx_evolution_cases idx)
       \<and> set (idx_temporal idx year) \<subseteq> fst ` set (idx_evolution_cases idx)
       \<and> set (idx_legal_areas idx area) \<subseteq> fst ` set (idx_evolution_cases idx)"
proof -
  from build_memory_index_Inr[OF assms] obtain idx1 where
    s1: "index_cases rt empty_index evolution_cases = Inr idx1"
    and s2: "index_crises rt idx1 crisis_periods = Inr idx"
    by blast
  from index_crises_Inr[OF s2] have same: "idx_evolution_cases idx = idx_evolution_cases idx1"
    "idx_temporal idx = idx_temporal idx1" "idx_legal_areas idx = idx_legal_areas idx1"
    "idx_keywords idx = idx_keywords idx1"
    by simp_all
  from index_cases_secondary[OF s1] have
    "set (idx_keywords idx1 keyword) \<subseteq> fst ` set (idx_evolution_cases idx1)"
    "set (idx_temporal idx1 year) \<subseteq> fst ` set (idx_evolution_cases idx1)"
    "set (idx_legal_areas idx1 area) \<subseteq> fst ` set (idx_evolution_cases idx1)"
    by (auto simp: empty_index_def)
  then show ?thesis by (simp add: same)
qed

text \<open>One evolution case and one crisis period.\<close>

theorem secondary_indexes_refer_to_store_witness:
  "\<exists>idx. build_memory_index runtime_fifo
            [example_case (CStr (asc ''C1'')) (CStr (asc ''1995-01-01''))] [example_crisis] = Inr idx
         \<and> idx_keywords idx (asc ''fideicomiso'') = [CStr (asc ''C1'')]
         \<and> idx_temporal idx (asc ''1995'') = [CStr (asc ''C1'')]
         \<and> idx_legal_areas idx (CStr (asc ''civil'')) = [CStr (asc ''C1'')]
         \<and> set (idx_keywords idx (asc ''fideicomiso'')) \<subseteq> fst ` set (idx_evolution_cases idx)
         \<and> set (idx_temporal idx (asc ''1995'')) \<subseteq> fst ` set (idx_evolution_cases idx)
         \<and> set (idx_legal_areas idx (CStr (asc ''civil''))) \<subseteq> fst ` set (idx_evolution_cases idx)"
proof -
  from example_build obtain idx where
    b: "build_memory_index runtime_fifo
            [example_case (CStr (asc ''C1'')) (CStr (asc ''1995-01-01''))] [example_crisis] = Inr idx"
    and v: "idx_keywords idx (asc ''fideicomiso'') = [CStr (asc ''C1'')]"
      "idx_temporal idx (asc ''1995'') = [CStr (asc ''C1'')]"
      "idx_legal_areas idx (CStr (asc ''civil'')) = [CStr (asc ''C1'')]"
    by blast
  from secondary_indexes_refer_to_store [OF b, of "asc ''fideicomiso''" "asc ''1995''" "CStr (asc ''civil'')"]
  show ?thesis using b v by blast
qed

text \<open>
  Claim C9, as amended. For every record of the evolution cases, the build appends the
  identifier to the entry of the year index whose key is the first four characters of
  \<^verbatim>\<open>str\<close> of the start date, or all of them when there are fewer than four; the insertion
  is never skipped.
\<close>

theorem temporal_index_every_record:
  assumes "build_memory_index rt evolution_cases crisis_periods = Inr idx"
    and "row \<in> set evolution_cases"
  shows "\<exists>case_id start.
           getitem row ''case_id'' = Inr case_id
         \<and> getitem row ''fecha_inicio'' = Inr start
         \<and> case_id \<in> set (idx_temporal idx (take 4 (py_str rt start)))
         \<and> length (take 4 (py_str rt start)) = min 4 (length (py_str rt start))"
proof -
  from build_memory_index_Inr[OF assms(1)] obtain idx1 where
    s1: "index_cases rt empty_index evolution_cases = Inr idx1"
    and s2: "index_crises rt idx1 crisis_periods = Inr idx"
    by blast
  from index_crises_Inr[OF s2] have same: "idx_temporal idx = idx_temporal idx1" by simp
  from index_cases_rows[OF s1 assms(2)] obtain case_id start where
    "getitem row ''case_id'' = Inr case_id" "getitem row ''fecha_inicio'' = Inr start"
    "case_id \<in> set (idx_temporal idx1 (take 4 (py_str rt start)))"
    by blast
  then show ?thesis using same by (auto simp: min_def)
qed

text \<open>The case that begins on 1995-01-01 is listed under \<^verbatim>\<open>1995\<close>.\<close>

theorem temporal_index_every_record_witness:
  "\<exists>idx. build_memory_index runtime_fifo
            [example_case (CStr (asc ''C1'')) (CStr (asc ''1995-01-01''))] [example_crisis] = Inr idx
         \<and> example_case (CStr (asc ''C1'')) (CStr (asc ''1995-01-01''))
             \<in> set [example_case (CStr (asc ''C1'')) (CStr (asc ''1995-01-01''))]
         \<and> CStr (asc ''C1'') \<in> set (idx_temporal idx (asc ''1995''))"
proof -
  from example_build obtain idx where
    b: "build_memory_index runtime_fifo
            [example_case (CStr (asc ''C1'')) (CStr (asc ''1995-01-01''))] [example_crisis] = Inr idx"
    by blast
  have r: "example_case (CStr (asc ''C1'')) (CStr (asc ''1995-01-01''))
             \<in> set [example_case (CStr (asc ''C1'')) (CStr (asc ''1995-01-01''))]"
    by simp
  have g1: "getitem (example_case (CStr (asc ''C1'')) (CStr (asc ''1995-01-01''))) ''case_id''
      = Inr (CStr (asc ''C1''))"
    by code_simp
  have g2: "getitem (example_case (CStr (asc ''C1'')) (CStr (asc ''1995-01-01''))) ''fecha_inicio''
      = Inr (CStr (asc ''1995-01-01''))"
    by code_simp
  have y: "take 4 (py_str runtime_fifo (CStr (asc ''1995-01-01''))) = asc ''1995''"
    by code_simp
  from temporal_index_every_record [OF b r] g1 g2 y
  have "CStr (asc ''C1'') \<in> set (idx_temporal idx (asc ''1995''))" by auto
  with b r show ?thesis by blast
qed

text \<open>
  The claim as stated fails: a case whose start date is missing is listed under the key
  \<^verbatim>\<open>nan\<close>, and one whose start date is \<^verbatim>\<open>95\<close> under the key \<^verbatim>\<open>95\<close>.
\<close>

theorem missing_date_is_indexed:
  "\<exists>idx. build_memory_index runtime_fifo
            [example_case (CStr (asc ''C1'')) CNaN, example_case (CStr (asc ''C2'')) (CStr (asc ''95''))] []
            = Inr idx
         \<and> idx_temporal idx (asc ''nan'') = [CStr (asc ''C1'')]
         \<and> idx_temporal idx (asc ''95'') = [CStr (asc ''C2'')]"
proof -
  have "case build_memory_index runtime_fifo
            [example_case (CStr (asc ''C1'')) CNaN, example_case (CStr (asc ''C2'')) (CStr (asc ''95''))] [] of
          Inl e \<Rightarrow> False
        | Inr idx \<Rightarrow> idx_temporal idx (asc ''nan'') = [CStr (asc ''C1'')]
            \<and> idx_temporal idx (asc ''95'') = [CStr (asc ''C2'')]"
    by code_simp
  then show ?thesis by (auto split: sum.splits)
qed

section \<open>The query\<close>

lemma search_memory_unknown_filter:
  assumes "t \<noteq> []" "t \<noteq> asc ''evolution_cases''" "t \<noteq> asc ''crisis_periods''"
  shows "search_memory cfg idx keywords (Some t) = []"
proof -
  have "scan_memory idx keywords (Some t) = []"
    using assms by (simp add: scan_memory_def not_context_def)
  then show ?thesis by (simp add: search_memory_def sort_reverse_def slice_to_def)
qed

lemma query_pipeline_unknown_filter:
  assumes "t \<noteq> []" "t \<noteq> asc ''evolution_cases''" "t \<noteq> asc ''crisis_periods''"
  shows "query_pipeline rt cfg idx now query (Some t) =
     (case py_print rt (processing_line query) of
        Inl e \<Rightarrow> Inl e
      | Inr u \<Rightarrow>
          (case py_print rt (processed_line 0) of
             Inl e \<Rightarrow> Inl e
           | Inr u \<Rightarrow>
               Inr \<lparr> q_query = query, q_response = no_cases_message,
                     q_analysis = analyze_response rt cfg no_cases_message query,
                     q_relevant_cases = [], q_confidence = 0,
                     q_sources = extract_sources rt no_cases_message, q_timestamp = now \<rparr>))"
proof -
  have s: "search_memory cfg idx kws (Some t) = []" for kws
    using assms by (rule search_memory_unknown_filter)
  have g: "generate_response rt query [] = Inr no_cases_message"
    by (simp add: generate_response_def)
  have c: "calculate_confidence [] kws = 0" for kws
    by (simp add: calculate_confidence_def)
  show ?thesis
    by (simp add: query_pipeline_def Let_def s g c split: sum.splits)
qed

text \<open>
  Claim C10, as amended. For every index and every keyword list, when the type filter is a
  string that is not empty and is neither \<^verbatim>\<open>evolution_cases\<close> nor \<^verbatim>\<open>crisis_periods\<close>, no
  partition is scanned and retrieval returns the empty list. The query then returns a
  result, not an error, with the message that no case was found, no relevant case and
  confidence 0, provided that its two lines can be printed; when printing one of them
  raises, the query returns the error dictionary with that exception.
\<close>

theorem unknown_filter_empty_result:
  assumes "t \<noteq> []" "t \<noteq> asc ''evolution_cases''" "t \<noteq> asc ''crisis_periods''"
  shows "search_memory cfg idx keywords (Some t) = []
       \<and> (print_raises rt (processing_line query) = None
            \<and> print_raises rt (processed_line 0) = None \<longrightarrow>
          (\<exists>r. query_legal_evolution rt cfg idx now query (Some t) = Result r
              \<and> q_query r = query
              \<and> q_response r = no_cases_message
              \<and> q_relevant_cases r = []
              \<and> q_confidence r = 0
              \<and> q_timestamp r = now))
       \<and> (\<forall>e. print_raises rt (processing_line query) = Some e \<longrightarrow>
              query_legal_evolution rt cfg idx now query (Some t) = Failure query e now)
       \<and> (\<forall>e. print_raises rt (processing_line query) = None
              \<and> print_raises rt (processed_line 0) = Some e \<longrightarrow>
              query_legal_evolution rt cfg idx now query (Some t) = Failure query e now)"
proof -
  have s: "search_memory cfg idx keywords (Some t) = []"
    using assms by (rule search_memory_unknown_filter)
  note p = query_pipeline_unknown_filter [OF assms, of rt cfg idx now query]
  have A: "\<exists>r. query_legal_evolution rt cfg idx now query (Some t) = Result r
              \<and> q_query r = query
              \<and> q_response r = no_cases_message
              \<and> q_relevant_cases r = []
              \<and> q_confidence r = 0
              \<and> q_timestamp r = now"
    if "print_raises rt (processing_line query) = None" "print_raises rt (processed_line 0) = None"
    using that by (simp add: query_legal_evolution_def p py_print_def)
  have B: "query_legal_evolution rt cfg idx now query (Some t) = Failure query e now"
    if "print_raises rt (processing_line query) = Some e" for e
    using that by (simp add: query_legal_evolution_def p py_print_def)
  have C: "query_legal_evolution rt cfg idx now query (Some t) = Failure query e now"
    if "print_raises rt (processing_line query) = None" "print_raises rt (processed_line 0) = Some e" for e
    using that by (simp add: query_legal_evolution_def p py_print_def)
  from s A B C show ?thesis by blast
qed

text \<open>The filter \<^verbatim>\<open>transplant_cases\<close>, on an index in which the keyword does occur.\<close>

theorem unknown_filter_empty_result_witness:
  "asc ''transplant_cases'' \<noteq> []
   \<and> asc ''transplant_cases'' \<noteq> asc ''evolution_cases''
   \<and> asc ''transplant_cases'' \<noteq> asc ''crisis_periods''
   \<and> print_raises runtime_fifo (processing_line (asc ''trust'')) = None
   \<and> print_raises runtime_fifo (processed_line 0) = None
   \<and> search_memory default_config example_index [asc ''trust''] (Some (asc ''transplant_cases'')) = []
   \<and> (\<exists>r. query_legal_evolution runtime_fifo default_config example_index (asc ''2024-09-01T12:00:00'')
              (asc ''trust'') (Some (asc ''transplant_cases'')) = Result r
          \<and> q_relevant_cases r = [] \<and> q_confidence r = 0)"
proof -
  have a: "asc ''transplant_cases'' \<noteq> []" by code_simp
  have b: "asc ''transplant_cases'' \<noteq> asc ''evolution_cases''" by code_simp
  have c: "asc ''transplant_cases'' \<noteq> asc ''crisis_periods''" by code_simp
  have p1: "print_raises runtime_fifo (processing_line (asc ''trust'')) = None" by code_simp
  have p2: "print_raises runtime_fifo (processed_line 0) = None" by code_simp
  from unknown_filter_empty_result [OF a b c, of default_config example_index "[asc ''trust'']"
      runtime_fifo "asc ''trust''" "asc ''2024-09-01T12:00:00''"] p1 p2
  have "search_memory default_config example_index [asc ''trust''] (Some (asc ''transplant_cases'')) = []
   \<and> (\<exists>r. query_legal_evolution runtime_fifo default_config example_index (asc ''2024-09-01T12:00:00'')
              (asc ''trust'') (Some (asc ''transplant_cases'')) = Result r
          \<and> q_relevant_cases r = [] \<and> q_confidence r = 0)"
    by blast
  with a b c p1 p2 show ?thesis by blast
qed

text \<open>
  The claim as stated fails in its last part: for a query that holds a lone surrogate,
  here U+DE00, the first \<^verbatim>\<open>print\<close> of the \<^verbatim>\<open>try\<close> block raises
  \<^verbatim>\<open>UnicodeEncodeError\<close> on a UTF-8 standard output, and the query reports an error.
\<close>

theorem unknown_filter_print_error:
  "asc ''transplant_cases'' \<noteq> []
   \<and> asc ''transplant_cases'' \<noteq> asc ''evolution_cases''
   \<and> asc ''transplant_cases'' \<noteq> asc ''crisis_periods''
   \<and> query_legal_evolution runtime_fifo default_config example_index (asc ''2024-09-01T12:00:00'')
         (asc ''trust'' @ [56832]) (Some (asc ''transplant_cases''))
       = Failure (asc ''trust'' @ [56832]) UnicodeEncodeError (asc ''2024-09-01T12:00:00'')"
  by code_simp

text \<open>
  Claim C4. For every query and every type filter, \<^verbatim>\<open>query_legal_evolution\<close> returns a
  dictionary: the result of the pipeline, with the query and the timestamp, when the
  pipeline raises nothing, and otherwise the error dictionary with the same query, the
  exception and the timestamp. No exception of the pipeline reaches the caller.
\<close>

theorem query_never_raises:
  "(\<exists>r. query_pipeline rt cfg idx now query context_type = Inr r
        \<and> query_legal_evolution rt cfg idx now query context_type = Result r
        \<and> q_query r = query \<and> q_timestamp r = now)
   \<or> (\<exists>e. query_pipeline rt cfg idx now query context_type = Inl e
        \<and> query_legal_evolution rt cfg idx now query context_type = Failure query e now)"
proof (cases "query_pipeline rt cfg idx now query context_type")
  case (Inl e)
  then show ?thesis by (simp add: query_legal_evolution_def)
next
  case (Inr r)
  then have "q_query r = query \<and> q_timestamp r = now"
    by (auto simp: query_pipeline_def Let_def split: sum.splits)
  with Inr show ?thesis by (simp add: query_legal_evolution_def)
qed

text \<open>A case whose start date is missing matches the query; the insights then take
  \<^verbatim>\<open>len\<close> of a float, and the \<^verbatim>\<open>TypeError\<close> comes back as the error dictionary.\<close>

theorem query_never_raises_witness:
  "\<exists>idx. build_memory_index runtime_fifo [example_case (CStr (asc ''C1'')) CNaN] [] = Inr idx
     \<and> query_pipeline runtime_fifo default_config idx (asc ''2024-09-01T12:00:00'') (asc ''fideicomiso'') None
         = Inl TypeError
     \<and> query_legal_evolution runtime_fifo default_config idx (asc ''2024-09-01T12:00:00'')
           (asc ''fideicomiso'') None
         = Failure (asc ''fideicomiso'') TypeError (asc ''2024-09-01T12:00:00'')"
proof -
  have "case build_memory_index runtime_fifo [example_case (CStr (asc ''C1'')) CNaN] [] of
          Inl e \<Rightarrow> False
        | Inr idx \<Rightarrow>
            query_pipeline runtime_fifo default_config idx (asc ''2024-09-01T12:00:00'') (asc ''fideicomiso'') None
              = Inl TypeError"
    by code_simp
  then obtain idx where
    b: "build_memory_index runtime_fifo [example_case (CStr (asc ''C1'')) CNaN] [] = Inr idx"
    and p: "query_pipeline runtime_fifo default_config idx (asc ''2024-09-01T12:00:00'') (asc ''fideicomiso'') None
              = Inl TypeError"
    by (auto split: sum.splits)
  from query_never_raises [of runtime_fifo default_config idx "asc ''2024-09-01T12:00:00''"
      "asc ''fideicomiso''" None] p
  have "query_legal_evolution runtime_fifo default_config idx (asc ''2024-09-01T12:00:00'')
           (asc ''fideicomiso'') None
         = Failure (asc ''fideicomiso'') TypeError (asc ''2024-09-01T12:00:00'')"
    by simp
  with b p show ?thesis by (intro exI[of _ idx] conjI)
qed

text \<open>
  Claim C7 does not hold of the code. The response to the query \<^verbatim>\<open>fideicomiso\<close>, on the
  index of one case that begins on 1995-01-01, contains the year 1995, and the temporal
  patterns of its analysis are \<^verbatim>\<open>['19']\<close>: the pattern \<^verbatim>\<open>\b(19|20)\d{2}\b\<close> has a group,
  so \<^verbatim>\<open>re.findall\<close> returns the two digits the group matched, where the claim has the
  whole token \<^verbatim>\<open>1995\<close>.
\<close>

theorem temporal_patterns_century_only:
  "\<exists>idx r. build_memory_index runtime_fifo
              [example_case (CStr (asc ''C1'')) (CStr (asc ''1995-01-01''))] [] = Inr idx
     \<and> query_legal_evolution runtime_fifo default_config idx (asc ''2024-09-01T12:00:00'')
           (asc ''fideicomiso'') None = Result r
     \<and> contains (q_response r) (asc ''Inicio: 1995-01-01'')
     \<and> temporal_patterns (q_analysis r) = [asc ''19'']
     \<and> remdups (spec_year_tokens None (q_response r)) = [asc ''1995'']"
proof -
  have "case build_memory_index runtime_fifo
              [example_case (CStr (asc ''C1'')) (CStr (asc ''1995-01-01''))] [] of
          Inl e \<Rightarrow> False
        | Inr idx \<Rightarrow>
            (case query_legal_evolution runtime_fifo default_config idx (asc ''2024-09-01T12:00:00'')
                    (asc ''fideicomiso'') None of
               Failure q e t \<Rightarrow> False
             | Result r \<Rightarrow> contains (q_response r) (asc ''Inicio: 1995-01-01'')
                 \<and> temporal_patterns (q_analysis r) = [asc ''19'']
                 \<and> remdups (spec_year_tokens None (q_response r)) = [asc ''1995''])"
    by code_simp
  then show ?thesis by (auto split: sum.splits query_result.splits)
qed

section \<open>Insights\<close>

lemma valid_runtime_fifo: "valid_runtime runtime_fifo"
  by (simp add: valid_runtime_def runtime_fifo_def)

lemma valid_runtime_lifo: "valid_runtime runtime_lifo"
  by (simp add: valid_runtime_def runtime_lifo_def)

lemma max_key_snoc:
  "max_key f x (xs @ [y]) = (if f (max_key f x xs) < f y then y else max_key f x xs)"
  by (simp add: max_key_def)

lemma max_key_first:
  "\<exists>pre post. x # xs = pre @ max_key f x xs # post
      \<and> (\<forall>b \<in> set pre. f b < f (max_key f x xs))
      \<and> (\<forall>b \<in> set post. f b \<le> f (max_key f x xs))"
proof (induction xs rule: rev_induct)
  case Nil
  have "x # [] = [] @ max_key f x [] # []" by (simp add: max_key_def)
  then show ?case by (metis empty_iff list.set(1))
next
  case (snoc y ys)
  let ?m = "max_key f x ys"
  from snoc obtain pre post where e: "x # ys = pre @ ?m # post"
    and lt: "\<forall>b \<in> set pre. f b < f ?m" and le: "\<forall>b \<in> set post. f b \<le> f ?m"
    by blast
  show ?case
  proof (cases "f ?m < f y")
    case True
    then have m: "max_key f x (ys @ [y]) = y" by (simp add: max_key_snoc)
    have "x # ys @ [y] = (x # ys) @ y # []" by simp
    moreover have "\<forall>b \<in> set (x # ys). f b < f y"
    proof
      fix b assume "b \<in> set (x # ys)"
      then have "b \<in> set pre \<or> b = ?m \<or> b \<in> set post" unfolding e by auto
      then show "f b < f y" using lt le True by (auto intro: less_trans le_less_trans)
    qed
    ultimately show ?thesis unfolding m by (metis empty_iff list.set(1))
  next
    case False
    then have m: "max_key f x (ys @ [y]) = ?m" by (simp add: max_key_snoc)
    have "x # ys @ [y] = pre @ ?m # (post @ [y])" using e by simp
    moreover have "\<forall>b \<in> set (post @ [y]). f b \<le> f ?m" using le False by auto
    ultimately show ?thesis unfolding m using lt by blast
  qed
qed

lemma startswith_append: "startswith (x @ r) x"
  by (simp add: startswith_iff)

lemma join_Cons: "\<exists>r. join sep (x # xs) = x @ r"
  by (cases xs) simp_all

lemma insights_first_line:
  assumes "generate_insights rt cases = Inr text"
    and "most_common rt (metadata_values ''legal_area'' cases) = Some a"
    and "cases \<noteq> []"
  shows "startswith text
           (asc ''- '' @ [193] @ asc ''rea legal m'' @ [225] @ asc ''s relevante: '' @ py_str rt a)"
proof -
  let ?l = "asc ''- '' @ [193] @ asc ''rea legal m'' @ [225] @ asc ''s relevante: '' @ py_str rt a"
  from assms have "\<exists>rest. text = join [10] (?l # rest) @ [10]"
    by (auto simp: generate_insights_def Let_def simp del: join.simps split: sum.splits if_splits)
  then obtain rest where "text = join [10] (?l # rest) @ [10]" by blast
  moreover obtain r where "join [10] (?l # rest) = ?l @ r" using join_Cons by blast
  ultimately have "text = ?l @ (r @ [10])" by simp
  then show ?thesis using startswith_append[of ?l "r @ [10]"] by simp
qed

text \<open>
  Claim C8, as amended. For every match list in which at least one match carries a
  category (a \<^verbatim>\<open>legal_area\<close> that is true), the dominant category is a category with the
  highest number of occurrences among the matches, and the first line of the insights
  names it; among several categories with that number, it is the one that the iteration
  of the set of the categories yields first, whatever their order in the match list. When
  the matches have one category only, as in \<^verbatim>\<open>["civil", "civil"]\<close>, it is
  that category.
\<close>

theorem dominant_category:
  assumes "valid_runtime rt" and "metadata_values ''legal_area'' cases \<noteq> []"
  shows "\<exists>a pre post.
           most_common rt (metadata_values ''legal_area'' cases) = Some a
           \<and> a \<in> set (metadata_values ''legal_area'' cases)
           \<and> (\<forall>b \<in> set (metadata_values ''legal_area'' cases).
                 count_list (metadata_values ''legal_area'' cases) b
                   \<le> count_list (metadata_values ''legal_area'' cases) a)
           \<and> set_order_cell rt (metadata_values ''legal_area'' cases) = pre @ a # post
           \<and> (\<forall>b \<in> set pre. count_list (metadata_values ''legal_area'' cases) b
                                 < count_list (metadata_values ''legal_area'' cases) a)
           \<and> (set (metadata_values ''legal_area'' cases) = {v} \<longrightarrow> a = v)
           \<and> (\<forall>text. generate_insights rt cases = Inr text \<longrightarrow>
                 startswith text (asc ''- '' @ [193] @ asc ''rea legal m'' @ [225]
                                    @ asc ''s relevante: '' @ py_str rt a))"
proof -
  let ?areas = "metadata_values ''legal_area'' cases"
  from assms(1) have so: "set (set_order_cell rt ?areas) = set ?areas"
    by (simp add: valid_runtime_def)
  with assms(2) obtain x xs where it: "set_order_cell rt ?areas = x # xs"
    by (cases "set_order_cell rt ?areas") auto
  let ?a = "max_key (count_list ?areas) x xs"
  from max_key_first[of x xs "count_list ?areas"] obtain pre post
    where e: "x # xs = pre @ ?a # post"
      and lt: "\<forall>b \<in> set pre. count_list ?areas b < count_list ?areas ?a"
      and le: "\<forall>b \<in> set post. count_list ?areas b \<le> count_list ?areas ?a"
    by blast
  have mc: "most_common rt ?areas = Some ?a" by (simp add: most_common_def it)
  have mem: "?a \<in> set ?areas" using so it e by (metis in_set_conv_decomp)
  have all: "\<forall>b \<in> set ?areas. count_list ?areas b \<le> count_list ?areas ?a"
  proof
    fix b assume "b \<in> set ?areas"
    then have "b \<in> set (pre @ ?a # post)" using so it e by simp
    then have "b \<in> set pre \<or> b = ?a \<or> b \<in> set post" by auto
    then show "count_list ?areas b \<le> count_list ?areas ?a" using lt le by (auto intro: less_imp_le)
  qed
  have one: "set ?areas = {v} \<longrightarrow> ?a = v" using mem by auto
  have ne: "cases \<noteq> []" using assms(2) by (auto simp: metadata_values_def)
  have line1: "\<forall>text. generate_insights rt cases = Inr text \<longrightarrow>
                 startswith text (asc ''- '' @ [193] @ asc ''rea legal m'' @ [225]
                                    @ asc ''s relevante: '' @ py_str rt ?a)"
    using insights_first_line[OF _ mc ne] by blast
  have ord: "set_order_cell rt ?areas = pre @ ?a # post" using it e by simp
  from mc mem all ord lt one line1 show ?thesis by blast
qed

text \<open>Two matches of category \<^verbatim>\<open>civil\<close>.\<close>

theorem dominant_category_witness:
  "valid_runtime runtime_fifo
   \<and> metadata_values ''legal_area'' [example_match, example_match] \<noteq> []
   \<and> most_common runtime_fifo (metadata_values ''legal_area'' [example_match, example_match])
        = Some (CStr (asc ''civil''))"
proof -
  have m: "metadata_values ''legal_area'' [example_match, example_match]
      = [CStr (asc ''civil''), CStr (asc ''civil'')]"
    by code_simp
  have ne: "metadata_values ''legal_area'' [example_match, example_match] \<noteq> []"
    by (simp add: m)
  have s: "set (metadata_values ''legal_area'' [example_match, example_match]) = {CStr (asc ''civil'')}"
    by (simp add: m)
  from dominant_category [OF valid_runtime_fifo ne, where v = "CStr (asc ''civil'')"] s
  have "most_common runtime_fifo (metadata_values ''legal_area'' [example_match, example_match])
      = Some (CStr (asc ''civil''))"
    by metis
  with ne valid_runtime_fifo show ?thesis by simp
qed

text \<open>
  The claim as stated fails in its tie-break: for the categories \<^verbatim>\<open>["civil", "penal"]\<close>,
  one occurrence each, in a process whose set iterates \<^verbatim>\<open>penal\<close> first, the insight
  names \<^verbatim>\<open>penal\<close>, not \<^verbatim>\<open>civil\<close>, which is first in the list.
\<close>

theorem dominant_category_tie_not_first:
  "valid_runtime runtime_lifo
   \<and> metadata_values ''legal_area'' [example_match, example_match_penal]
        = [CStr (asc ''civil''), CStr (asc ''penal'')]
   \<and> most_common runtime_lifo (metadata_values ''legal_area'' [example_match, example_match_penal])
        = Some (CStr (asc ''penal''))
   \<and> most_common runtime_lifo (metadata_values ''legal_area'' [example_match, example_match_penal])
        \<noteq> Some (CStr (asc ''civil''))
   \<and> generate_insights runtime_lifo [example_match, example_match_penal]
        = Inr (asc ''- '' @ [193] @ asc ''rea legal m'' @ [225] @ asc ''s relevante: penal'' @ [10]
               @ asc ''- Tasa de '' @ [233] @ asc ''xito en casos relevantes: 50.0%'' @ [10]
               @ asc ''- Per'' @ [237] @ asc ''odo temporal: 1995-2001'' @ [10])"
proof -
  have m: "metadata_values ''legal_area'' [example_match, example_match_penal]
        = [CStr (asc ''civil''), CStr (asc ''penal'')]"
    by code_simp
  have c: "most_common runtime_lifo [CStr (asc ''civil''), CStr (asc ''penal'')]
        = Some (CStr (asc ''penal''))"
    by code_simp
  have d: "CStr (asc ''penal'') \<noteq> CStr (asc ''civil'')" by code_simp
  have g: "generate_insights runtime_lifo [example_match, example_match_penal]
        = Inr (asc ''- '' @ [193] @ asc ''rea legal m'' @ [225] @ asc ''s relevante: penal'' @ [10]
               @ asc ''- Tasa de '' @ [233] @ asc ''xito en casos relevantes: 50.0%'' @ [10]
               @ asc ''- Per'' @ [237] @ asc ''odo temporal: 1995-2001'' @ [10])"
    by code_simp
  from m c d g valid_runtime_lifo show ?thesis by simp
qed

end
